theory Spec2Isabelle
  imports Main
begin

section \<open>The doorbell event pipeline of backend/services/firebaseService.js\<close>

text \<open>
  The service reacts to every child added under \<open>/doorbell_events\<close>: it claims the
  event, obtains its image, asks the face recognition API, checks the recognised names
  against the visitors collection, writes one record under \<open>/recognition_results\<close>
  and sends a push notification. Every external call is a branch of the model: it is
  appended to the list of calls of the world, and its failure is a value.
\<close>

subsection \<open>JavaScript values\<close>

text \<open>
  The fields of an event come from \<open>snapshot.val()\<close> and are untyped. The fields the
  code only tests for truthiness or passes on are kept as JavaScript values; numbers are
  the integral ones.
\<close>

datatype jsval = Undefined | JNull | JBool bool | JNum int | JStr string

fun truthy :: "jsval \<Rightarrow> bool" where
  "truthy Undefined = False"
| "truthy JNull = False"
| "truthy (JBool b) = b"
| "truthy (JNum n) = (n \<noteq> 0)"
| "truthy (JStr s) = (s \<noteq> [])"

definition js_or :: "jsval \<Rightarrow> jsval \<Rightarrow> jsval" where
  "js_or a b = (if truthy a then a else b)"

text \<open>A value that is a string or absent (\<open>undefined\<close>, \<open>null\<close>): truthy when non-empty.\<close>

fun truthy_str :: "string option \<Rightarrow> bool" where
  "truthy_str None = False"
| "truthy_str (Some s) = (s \<noteq> [])"

definition or_default :: "string option \<Rightarrow> string \<Rightarrow> string" where
  "or_default v d = (case v of None \<Rightarrow> d | Some s \<Rightarrow> if s = [] then d else s)"

text \<open>\<open>xs[0]\<close> of an array: \<open>undefined\<close> when the array is empty.\<close>

fun nth0 :: "'a list \<Rightarrow> 'a option" where
  "nth0 [] = None"
| "nth0 (x # xs) = Some x"

text \<open>\<open>String.prototype.includes\<close>: a case-sensitive search for a contiguous substring.\<close>

fun startsWith :: "string \<Rightarrow> string \<Rightarrow> bool" where
  "startsWith s [] = True"
| "startsWith [] (c # cs) = False"
| "startsWith (x # xs) (c # cs) = (x = c \<and> startsWith xs cs)"

fun includes_js :: "string \<Rightarrow> string \<Rightarrow> bool" where
  "includes_js [] sub = (sub = [])"
| "includes_js (x # xs) sub = (startsWith (x # xs) sub \<or> includes_js xs sub)"

subsection \<open>Data\<close>

datatype error =
    RangeError | SyntaxError | NetworkError | TimeoutError
  | MongoError | FirebaseError | MessagingError

text \<open>
  What an awaited call does: it returns, it throws, or its promise never settles.
\<close>

datatype 'a outcome = Returned 'a | Threw error | Pending

text \<open>
  One child of \<open>/doorbell_events\<close>. \<open>image\<close> and \<open>imageUrl\<close> hold text when present.
\<close>

record event =
  image_ev :: "string option"
  imageUrl :: "string option"
  timestamp :: jsval
  deviceId :: jsval
  createdAt :: jsval
  messageType :: jsval
  processed :: jsval

text \<open>
  The body of the recognition API's answer, in the shape the service reads it:
  \<open>message\<close> and \<open>recognized_names\<close> may be missing.
\<close>

record recognition =
  success :: bool
  authenticated :: bool
  message :: "string option"
  recognized_names :: "string list option"

text \<open>
  A document of models/Visitor.js, with the fields the service reads or writes
  (\<open>lastVisit\<close> is a time in milliseconds, absent until the first visit).
\<close>

record visitor =
  name :: string
  isAuthorized :: bool
  visitCount :: int
  lastVisit :: "int option"

record validation =
  isAuthorized_v :: bool
  visitorName :: "string option"

record final_result =
  deviceId_r :: jsval
  timestamp_r :: string
  originalTimestamp :: jsval
  recognized :: bool
  name_r :: string
  authorized :: bool
  imageReference :: "string option"
  messageType_r :: jsval

text \<open>
  The FCM message; its \<open>android\<close> and \<open>apns\<close> parts are constants and left out.
\<close>

record fcm_message =
  topic :: string
  title :: string
  body :: string
  data_eventId :: string
  data_name :: string
  data_authorized :: string
  data_timestamp :: string

text \<open>The external calls, in the order the service issues them.\<close>

datatype call =
    Update string bool
  | HttpGet string
  | Recognize string
  | FindOne string
  | Save nat
  | SetResult string final_result
  | Send fcm_message

record world =
  doorbell_events :: "string \<Rightarrow> event option"
  visitors :: "visitor list"
  recognition_results :: "string \<Rightarrow> final_result option"
  delivered :: "fcm_message list"
  calls :: "call list"

definition record_call :: "call \<Rightarrow> world \<Rightarrow> world" where
  "record_call c w = w\<lparr>calls := calls w @ [c]\<rparr>"

text \<open>The calls that go to the visitors collection.\<close>

fun store_call :: "call \<Rightarrow> bool" where
  "store_call (FindOne nm) = True"
| "store_call (Save i) = True"
| "store_call c = False"

subsection \<open>The collaborators\<close>

text \<open>
  A server answers, refuses (connection error or a status outside 2xx), or stays silent.
\<close>

datatype 'a reply = Reply 'a | Refused | NoReply

text \<open>
  Everything outside the service is a parameter: the image host (its body already in
  base64), the recognition API, the regular expression engine behind
  \<open>new RegExp(pattern, flags)\<close> (\<open>None\<close> is its SyntaxError, otherwise the unanchored
  test of a text), the faults of the visitors collection, of the Firebase writes and of FCM,
  \<open>Date.parse\<close>, \<open>toISOString\<close> on a valid time, and the two readings of the clock.
\<close>

record env =
  image_host :: "string \<Rightarrow> string reply"
  face_api :: "string \<Rightarrow> recognition reply"
  RegExp :: "string \<Rightarrow> string \<Rightarrow> (string \<Rightarrow> bool) option"
  findOne_fails :: "string \<Rightarrow> bool"
  save_fails :: bool
  update_fails :: "bool \<Rightarrow> bool"
  set_fails :: bool
  send_fails :: bool
  Date_parse :: "string \<Rightarrow> int option"
  toISOString :: "int \<Rightarrow> string"
  visit_clock :: int
  result_clock :: int

text \<open>\<open>new RegExp(name, 'i')\<close>, as line 167 builds it: the flag is \<open>i\<close>, ignore case.\<close>

definition RegExp_i :: "env \<Rightarrow> string \<Rightarrow> (string \<Rightarrow> bool) option" where
  "RegExp_i en nm = RegExp en nm ''i''"

text \<open>
  An axios request with the \<open>timeout\<close> option \<open>t\<close> in milliseconds; axios's default is
  0, which means no timeout. \<open>None\<close>: the promise never settles.
\<close>

definition axios_default_timeout :: nat where
  "axios_default_timeout = 0"

fun axios_request :: "nat \<Rightarrow> 'a reply \<Rightarrow> (error + 'a) option" where
  "axios_request t (Reply x) = Some (Inr x)"
| "axios_request t Refused = Some (Inl NetworkError)"
| "axios_request t NoReply = (if t = 0 then None else Some (Inl TimeoutError))"

text \<open>\<open>new Date(v)\<close>: the time value, \<open>None\<close> for an Invalid Date.\<close>

definition max_time :: int where
  "max_time = 8640000000000000"

fun Date_of :: "env \<Rightarrow> jsval \<Rightarrow> int option" where
  "Date_of en Undefined = None"
| "Date_of en JNull = Some 0"
| "Date_of en (JBool b) = Some (if b then 1 else 0)"
| "Date_of en (JNum n) = (if \<bar>n\<bar> \<le> max_time then Some n else None)"
| "Date_of en (JStr s) = Date_parse en s"

subsection \<open>processDoorbellEvent and its stages\<close>

text \<open>\<open>timestamp || new Date(createdAt).toISOString()\<close>; an Invalid Date throws.\<close>

definition actualTimestamp :: "env \<Rightarrow> event \<Rightarrow> error + jsval" where
  "actualTimestamp en ev =
     (if truthy (timestamp ev) then Inr (timestamp ev)
      else case Date_of en (createdAt ev) of
             None \<Rightarrow> Inl RangeError
           | Some t \<Rightarrow> Inr (JStr (toISOString en t)))"

text \<open>
  Lines 74 to 88: the inline image, else the image behind the URL, else \<open>null\<close>.
  The request carries only \<open>responseType\<close>, so its timeout is the default.
  The result comes with the calls issued.
\<close>

definition processedImage :: "env \<Rightarrow> event \<Rightarrow> string option outcome \<times> call list" where
  "processedImage en ev =
     (if truthy_str (image_ev ev) then (Returned (image_ev ev), [])
      else if truthy_str (imageUrl ev) then
        (case imageUrl ev of
           None \<Rightarrow> (Returned None, [])
         | Some url \<Rightarrow>
            (case axios_request axios_default_timeout (image_host en url) of
               None \<Rightarrow> (Pending, [HttpGet url])
             | Some (Inl e) \<Rightarrow> (Returned None, [HttpGet url])
             | Some (Inr b64) \<Rightarrow> (Returned (Some b64), [HttpGet url])))
      else (Returned None, []))"

definition no_image :: recognition where
  "no_image = \<lparr>success = False, authenticated = False,
     message = Some ''unclassified - no image'', recognized_names = Some []\<rparr>"

definition service_unavailable :: recognition where
  "service_unavailable = \<lparr>success = False, authenticated = False,
     message = Some ''unclassified - service unavailable'', recognized_names = Some []\<rparr>"

definition callFacialRecognition ::
  "env \<Rightarrow> string option \<Rightarrow> recognition outcome \<times> call list" where
  "callFacialRecognition en base64Image =
     (if \<not> truthy_str base64Image then (Returned no_image, [])
      else case base64Image of
             None \<Rightarrow> (Returned no_image, [])
           | Some img \<Rightarrow>
              (case axios_request 30000 (face_api en img) of
                 None \<Rightarrow> (Pending, [Recognize img])
               | Some (Inl e) \<Rightarrow> (Returned service_unavailable, [Recognize img])
               | Some (Inr d) \<Rightarrow> (Returned d, [Recognize img])))"

text \<open>
  \<open>Visitor.findOne({name: {$regex: new RegExp(name, 'i')}, isAuthorized: true})\<close>:
  the first document, in the collection's order, that the pattern matches and that is
  authorized, with its position. The pattern is built before the query is sent.
\<close>

fun first_from :: "nat \<Rightarrow> ('a \<Rightarrow> bool) \<Rightarrow> 'a list \<Rightarrow> (nat \<times> 'a) option" where
  "first_from i P [] = None"
| "first_from i P (x # xs) = (if P x then Some (i, x) else first_from (Suc i) P xs)"

definition findOne :: "env \<Rightarrow> world \<Rightarrow> string \<Rightarrow> (error + (nat \<times> visitor) option) \<times> world" where
  "findOne en w nm =
     (case RegExp_i en nm of
        None \<Rightarrow> (Inl SyntaxError, w)
      | Some m \<Rightarrow>
         (if findOne_fails en nm then (Inl MongoError, record_call (FindOne nm) w)
          else (Inr (first_from 0 (\<lambda>v. m (name v) \<and> isAuthorized v) (visitors w)),
                record_call (FindOne nm) w)))"

text \<open>
  \<open>visitor.visitCount += 1\<close> adds two Numbers, which are doubles. The counts are whole
  numbers (the schema starts them at 0 and the service only adds 1), kept here as
  integers; the sum is the double nearest to the exact sum, ties going to the even
  significand. Below \<open>2^53\<close> every whole number is a double; from there on the doubles
  are \<open>2 ^ ulp_exp m\<close> apart. Magnitudes stay below the largest double.
\<close>

fun ulp_exp :: "nat \<Rightarrow> nat" where
  "ulp_exp m = (if m < 9007199254740992 then 0 else Suc (ulp_exp (m div 2)))"

definition nearest_double :: "nat \<Rightarrow> nat" where
  "nearest_double m =
     (let k = ulp_exp m; q = m div 2 ^ k; r = m mod 2 ^ k
      in if 2 * r < 2 ^ k \<or> (2 * r = 2 ^ k \<and> even q) then q * 2 ^ k else (q + 1) * 2 ^ k)"

definition Number_plus :: "int \<Rightarrow> int \<Rightarrow> int" where
  "Number_plus x y =
     (if 0 \<le> x + y then int (nearest_double (nat (x + y)))
      else - int (nearest_double (nat (- (x + y)))))"

text \<open>
  The body of the \<open>try\<close> of validateVisitor: the loop over the recognised names, and
  the answer after it. \<open>Inl\<close> is what the \<open>catch\<close> receives.
\<close>

fun lookup_names ::
  "env \<Rightarrow> world \<Rightarrow> string list \<Rightarrow> string list \<Rightarrow> (error + validation) \<times> world" where
  "lookup_names en w recognizedNames [] =
     (Inr \<lparr>isAuthorized_v = False, visitorName = nth0 recognizedNames\<rparr>, w)"
| "lookup_names en w recognizedNames (nm # rest) =
     (case findOne en w nm of
        (Inl e, w1) \<Rightarrow> (Inl e, w1)
      | (Inr None, w1) \<Rightarrow> lookup_names en w1 recognizedNames rest
      | (Inr (Some (i, v)), w1) \<Rightarrow>
         (let v' = v\<lparr>visitCount := Number_plus (visitCount v) 1,
                      lastVisit := Some (visit_clock en)\<rparr>;
              w2 = record_call (Save i) w1
          in if save_fails en then (Inl MongoError, w2)
             else (Inr \<lparr>isAuthorized_v = True, visitorName = Some (name v')\<rparr>,
                   w2\<lparr>visitors := (visitors w2)[i := v']\<rparr>)))"

definition validateVisitor :: "env \<Rightarrow> world \<Rightarrow> recognition \<Rightarrow> validation \<times> world" where
  "validateVisitor en w recognitionResult =
     (if \<not> success recognitionResult \<or> \<not> authenticated recognitionResult then
        (\<lparr>isAuthorized_v = False,
          visitorName = Some (if (case message recognitionResult of
                                    None \<Rightarrow> False
                                  | Some m \<Rightarrow> includes_js m ''unclassified'')
                              then ''unclassified'' else ''unknown'')\<rparr>, w)
      else
        (let recognizedNames =
               (case recognized_names recognitionResult of None \<Rightarrow> [] | Some ns \<Rightarrow> ns)
         in if length recognizedNames = 0 then
              (\<lparr>isAuthorized_v = False, visitorName = Some ''unknown''\<rparr>, w)
            else case lookup_names en w recognizedNames recognizedNames of
                   (Inr v, w1) \<Rightarrow> (v, w1)
                 | (Inl e, w1) \<Rightarrow>
                     (\<lparr>isAuthorized_v = False,
                       visitorName = Some (or_default (nth0 recognizedNames) ''unknown'')\<rparr>,
                      w1)))"

definition finalResult ::
  "env \<Rightarrow> string \<Rightarrow> event \<Rightarrow> jsval \<Rightarrow> string option \<Rightarrow> recognition \<Rightarrow> validation \<Rightarrow> final_result" where
  "finalResult en eventId ev actualTs img recognitionResult validationResult =
     \<lparr>deviceId_r = js_or (deviceId ev) (JStr ''esp32-doorbell''),
      timestamp_r = toISOString en (result_clock en),
      originalTimestamp = actualTs,
      recognized = (success recognitionResult \<and> authenticated recognitionResult),
      name_r = or_default (visitorName validationResult) ''unknown'',
      authorized = (isAuthorized_v validationResult \<or> False),
      imageReference = (if truthy_str img then Some (''event_'' @ eventId) else None),
      messageType_r = js_or (messageType ev) (JStr ''motion_detection'')\<rparr>"

definition writeRecognitionResult ::
  "env \<Rightarrow> world \<Rightarrow> string \<Rightarrow> final_result \<Rightarrow> unit outcome \<times> world" where
  "writeRecognitionResult en w eventId result =
     (let w1 = record_call (SetResult eventId result) w
      in if set_fails en then (Threw FirebaseError, w1)
         else (Returned (),
               w1\<lparr>recognition_results := (recognition_results w1)(eventId \<mapsto> result)\<rparr>))"

definition notification :: "string \<Rightarrow> final_result \<Rightarrow> fcm_message" where
  "notification eventId r =
     \<lparr>topic = ''doorbell_notifications'',
      title = (if authorized r then ''Welcome '' @ name_r r @ ''!''
               else ''Visitor: '' @ name_r r),
      body = (if authorized r then ''Authorized visitor '' @ name_r r @ '' at your door''
              else name_r r @ '' detected at your doorbell''),
      data_eventId = eventId,
      data_name = name_r r,
      data_authorized = (if authorized r then ''true'' else ''false''),
      data_timestamp = timestamp_r r\<rparr>"

text \<open>sendPushNotification swallows the failure of \<open>send\<close>: it always returns.\<close>

definition sendPushNotification :: "env \<Rightarrow> world \<Rightarrow> string \<Rightarrow> final_result \<Rightarrow> world" where
  "sendPushNotification en w eventId r =
     (let w1 = record_call (Send (notification eventId r)) w
      in if send_fails en then w1
         else w1\<lparr>delivered := delivered w1 @ [notification eventId r]\<rparr>)"

definition add_calls :: "call list \<Rightarrow> world \<Rightarrow> world" where
  "add_calls cs w = w\<lparr>calls := calls w @ cs\<rparr>"

definition processDoorbellEvent ::
  "env \<Rightarrow> world \<Rightarrow> string \<Rightarrow> event \<Rightarrow> unit outcome \<times> world" where
  "processDoorbellEvent en w eventId ev =
     (case actualTimestamp en ev of
        Inl e \<Rightarrow> (Threw e, w)
      | Inr actualTs \<Rightarrow>
         (case processedImage en ev of
            (Pending, cs) \<Rightarrow> (Pending, add_calls cs w)
          | (Threw e, cs) \<Rightarrow> (Threw e, add_calls cs w)
          | (Returned img, cs) \<Rightarrow>
             (case callFacialRecognition en img of
                (Pending, cs') \<Rightarrow> (Pending, add_calls cs' (add_calls cs w))
              | (Threw e, cs') \<Rightarrow> (Threw e, add_calls cs' (add_calls cs w))
              | (Returned recognitionResult, cs') \<Rightarrow>
                 (case validateVisitor en (add_calls cs' (add_calls cs w)) recognitionResult of
                    (validationResult, w3) \<Rightarrow>
                     (let r = finalResult en eventId ev actualTs img
                                recognitionResult validationResult
                      in case writeRecognitionResult en w3 eventId r of
                           (Returned u, w4) \<Rightarrow>
                             (Returned (), sendPushNotification en w4 eventId r)
                         | (Threw e, w4) \<Rightarrow> (Threw e, w4)
                         | (Pending, w4) \<Rightarrow> (Pending, w4))))))"

subsection \<open>The listener\<close>

text \<open>
  \<open>snapshot.ref.update({processed: b})\<close>: only the \<open>processed\<close> field of the event's
  node is written; a rejected update leaves the node as it is.
\<close>

definition blank_event :: event where
  "blank_event = \<lparr>image_ev = None, imageUrl = None, timestamp = Undefined,
     deviceId = Undefined, createdAt = Undefined, messageType = Undefined,
     processed = Undefined\<rparr>"

definition update_processed :: "env \<Rightarrow> world \<Rightarrow> string \<Rightarrow> bool \<Rightarrow> unit outcome \<times> world" where
  "update_processed en w eventId b =
     (let w1 = record_call (Update eventId b) w
      in if update_fails en b then (Threw FirebaseError, w1)
         else (Returned (),
               w1\<lparr>doorbell_events := (doorbell_events w1)(eventId \<mapsto>
                    (case doorbell_events w1 eventId of
                       None \<Rightarrow> blank_event\<lparr>processed := JBool b\<rparr>
                     | Some e \<Rightarrow> e\<lparr>processed := JBool b\<rparr>))\<rparr>))"

text \<open>The body of the \<open>try\<close> of the listener: claim, then process.\<close>

definition claim_and_process :: "env \<Rightarrow> world \<Rightarrow> string \<Rightarrow> event \<Rightarrow> unit outcome \<times> world" where
  "claim_and_process en w eventId eventData =
     (case update_processed en w eventId True of
        (Returned u, w1) \<Rightarrow> processDoorbellEvent en w1 eventId eventData
      | (Threw e, w1) \<Rightarrow> (Threw e, w1)
      | (Pending, w1) \<Rightarrow> (Pending, w1))"

text \<open>
  The callback of \<open>child_added\<close> (startEventListener, lines 39 to 59): an event whose
  \<open>processed\<close> is exactly \<open>true\<close> is skipped; otherwise the \<open>try\<close> runs and its
  \<open>catch\<close> writes \<open>processed: false\<close>.
\<close>

definition on_child_added :: "env \<Rightarrow> world \<Rightarrow> string \<Rightarrow> event \<Rightarrow> unit outcome \<times> world" where
  "on_child_added en w eventId eventData =
     (if processed eventData = JBool True then (Returned (), w)
      else case claim_and_process en w eventId eventData of
             (Threw e, w2) \<Rightarrow> update_processed en w2 eventId False
           | (Returned u, w2) \<Rightarrow> (Returned (), w2)
           | (Pending, w2) \<Rightarrow> (Pending, w2))"

subsection \<open>The regular expressions of the deployment\<close>

text \<open>
  The theorems below hold for every engine \<open>RegExp\<close>. The deployment that follows needs
  one to run on: this is JavaScript's on the patterns made of ASCII characters that are
  not syntax characters, of \<open>.\<close>, and of a \<open>*\<close> after one of them, under the flags
  \<open>i\<close> and none. \<open>.\<close> is any character but a line break; under \<open>i\<close> the letters
  A to Z match in either case (a character outside ASCII never matches an ASCII one);
  the test is unanchored. A \<open>*\<close> with nothing to repeat and a \<open>(\<close> that is never
  closed are syntax errors. A text is a list of code units below 256. Every other
  pattern, and every other flag, is outside the fragment: there the function is a
  stand-in that refuses the pattern, which JavaScript often would not; the recognition
  API of the deployment names no such candidate.
\<close>

datatype atom = AnyChar | Lit char

datatype item = One atom | Star atom

datatype parsed = Items "item list" | Invalid | Unsupported

definition other_syntax_chars :: "char list" where
  "other_syntax_chars = CHR 0x5C # ''^$+?()[]{}|''"

fun cons_item :: "item \<Rightarrow> parsed \<Rightarrow> parsed" where
  "cons_item i (Items is) = Items (i # is)"
| "cons_item i Invalid = Invalid"
| "cons_item i Unsupported = Unsupported"

fun parse_pattern :: "string \<Rightarrow> parsed" where
  "parse_pattern [] = Items []"
| "parse_pattern [c] =
     (if c = CHR ''*'' then Invalid
      else if c = CHR ''('' then Invalid
      else if c \<in> set other_syntax_chars \<or> digit7 c then Unsupported
      else Items [One (if c = CHR ''.'' then AnyChar else Lit c)])"
| "parse_pattern (c # d # ds) =
     (if c = CHR ''*'' then Invalid
      else if c = CHR ''('' \<and> CHR '')'' \<notin> set (d # ds) then Invalid
      else if c \<in> set other_syntax_chars \<or> digit7 c then Unsupported
      else if d = CHR ''*''
           then cons_item (Star (if c = CHR ''.'' then AnyChar else Lit c)) (parse_pattern ds)
           else cons_item (One (if c = CHR ''.'' then AnyChar else Lit c)) (parse_pattern (d # ds)))"

definition lower :: "char \<Rightarrow> char" where
  "lower c = (case map_of (zip ''ABCDEFGHIJKLMNOPQRSTUVWXYZ'' ''abcdefghijklmnopqrstuvwxyz'') c of
                None \<Rightarrow> c | Some l \<Rightarrow> l)"

fun atom_ok :: "bool \<Rightarrow> atom \<Rightarrow> char \<Rightarrow> bool" where
  "atom_ok ignoreCase AnyChar c = (c \<noteq> CHR 0x0A \<and> c \<noteq> CHR 0x0D)"
| "atom_ok ignoreCase (Lit l) c = (if ignoreCase then lower l = lower c else l = c)"

fun match_here :: "bool \<Rightarrow> item list \<Rightarrow> string \<Rightarrow> bool" where
  "match_here g [] s = True"
| "match_here g (One a # r) [] = False"
| "match_here g (One a # r) (c # cs) = (atom_ok g a c \<and> match_here g r cs)"
| "match_here g (Star a # r) [] = match_here g r []"
| "match_here g (Star a # r) (c # cs) =
     (match_here g r (c # cs) \<or> (atom_ok g a c \<and> match_here g (Star a # r) cs))"

fun search :: "bool \<Rightarrow> item list \<Rightarrow> string \<Rightarrow> bool" where
  "search g p [] = match_here g p []"
| "search g p (c # cs) = (match_here g p (c # cs) \<or> search g p cs)"

definition RegExp_fragment :: "string \<Rightarrow> string \<Rightarrow> (string \<Rightarrow> bool) option" where
  "RegExp_fragment p flags =
     (if flags = ''i'' \<or> flags = [] then
        (case parse_pattern p of
           Items is \<Rightarrow> Some (search (flags = ''i'') is)
         | Invalid \<Rightarrow> None
         | Unsupported \<Rightarrow> None)
      else None)"

subsection \<open>A concrete deployment\<close>

text \<open>
  A collection of three visitors, an image host, a recognition API that knows a few
  images, and events in the two formats the service accepts.
\<close>

definition bob :: visitor where
  "bob = \<lparr>name = ''Bob'', isAuthorized = False, visitCount = 0, lastVisit = None\<rparr>"

definition ali :: visitor where
  "ali = \<lparr>name = ''Ali Hassan'', isAuthorized = True, visitCount = 4, lastVisit = None\<rparr>"

definition sammad :: visitor where
  "sammad = \<lparr>name = ''Abdul Sammad'', isAuthorized = True, visitCount = 2,
     lastVisit = Some 1699999999000\<rparr>"

definition world0 :: world where
  "world0 = \<lparr>doorbell_events = Map.empty, visitors = [bob, ali, sammad],
     recognition_results = Map.empty, delivered = [], calls = []\<rparr>"

definition answer :: "bool \<Rightarrow> string \<Rightarrow> string list \<Rightarrow> recognition" where
  "answer a m ns = \<lparr>success = True, authenticated = a, message = Some m,
     recognized_names = Some ns\<rparr>"

definition api0 :: "string \<Rightarrow> recognition reply" where
  "api0 img =
     (if img = ''QUxJ'' then Reply (answer True ''Authenticated as ali'' [''Stranger'', ''ali'', ''Abdul''])
      else if img = ''Pz8/'' then Reply (answer False ''No match found'' [])
      else if img = ''Tk9GQUNF'' then Reply (answer False ''unclassified - no face'' [])
      else if img = ''Tk9ORQ=='' then Reply (answer True ''Authenticated'' [])
      else if img = ''RE9U'' then Reply (answer True ''Authenticated'' [''.''])
      else if img = ''UEFS'' then Reply (answer True ''Authenticated'' [''bo'', ''('', ''ali''])
      else if img = ''RU1Q'' then Reply (answer True ''Authenticated'' [[], ''ali''])
      else if img = ''UEFSMg=='' then Reply (answer True ''Authenticated'' [''('', ''ali''])
      else if img = ''Q0FQUw=='' then Reply (answer True ''Authenticated'' [''ALI HASSAN''])
      else if img = ''c2xvdw=='' then NoReply
      else Refused)"

definition env0 :: env where
  "env0 = \<lparr>image_host = (\<lambda>url. if url = ''http://cam/1.jpg'' then Reply ''QUxJ''
                             else if url = ''http://cam/2.jpg'' then NoReply
                             else Refused),
     face_api = api0,
     RegExp = RegExp_fragment,
     findOne_fails = (\<lambda>nm. False),
     save_fails = False,
     update_fails = (\<lambda>b. False),
     set_fails = False,
     send_fails = False,
     Date_parse = (\<lambda>s. None),
     toISOString = (\<lambda>t. if t = 1700000000000 then ''2023-11-14T22:13:20.000Z''
                         else ''1970-01-01T00:00:00.000Z''),
     visit_clock = 1700000000000,
     result_clock = 1700000000000\<rparr>"

definition inline_event :: "string \<Rightarrow> event" where
  "inline_event img = blank_event\<lparr>image_ev := Some img, timestamp := JNum 1699999990000,
     deviceId := JStr ''door-1''\<rparr>"

definition url_event :: "string \<Rightarrow> event" where
  "url_event url = blank_event\<lparr>imageUrl := Some url, createdAt := JNum 1700000000000\<rparr>"

definition bare_event :: event where
  "bare_event = blank_event\<lparr>timestamp := JStr ''2023-11-14T22:13:10Z''\<rparr>"

text \<open>
  The same collection when Ali Hassan has come \<open>2^53\<close> times, and a collection with
  no authorized visitor.
\<close>

definition world_max :: world where
  "world_max = world0\<lparr>visitors := [bob, ali\<lparr>visitCount := 9007199254740992\<rparr>, sammad]\<rparr>"

definition world_bob :: world where
  "world_bob = world0\<lparr>visitors := [bob]\<rparr>"

text \<open>The same deployment while the visitors collection rejects every query, or every save.\<close>

definition store_down :: env where
  "store_down = env0\<lparr>findOne_fails := (\<lambda>nm. True)\<rparr>"

definition save_down :: env where
  "save_down = env0\<lparr>save_fails := True\<rparr>"

section \<open>Properties\<close>

lemmas deploy_defs = env0_def world0_def api0_def answer_def inline_event_def url_event_def
  bare_event_def blank_event_def ali_def bob_def sammad_def RegExp_i_def RegExp_fragment_def
  other_syntax_chars_def lower_def

lemmas run_defs = processDoorbellEvent_def actualTimestamp_def processedImage_def
  callFacialRecognition_def validateVisitor_def finalResult_def writeRecognitionResult_def
  sendPushNotification_def notification_def add_calls_def record_call_def
  update_processed_def claim_and_process_def on_child_added_def findOne_def js_or_def
  or_default_def no_image_def service_unavailable_def axios_default_timeout_def

subsection \<open>The stages one by one\<close>

lemma callFacialRecognition_null:
  "\<not> truthy_str b \<Longrightarrow> callFacialRecognition en b = (Returned no_image, [])"
  by (simp add: callFacialRecognition_def)

lemma callFacialRecognition_returns:
  "\<exists>r cs. callFacialRecognition en b = (Returned r, cs)"
  by (cases b; cases "face_api en (the b)")
     (auto simp: callFacialRecognition_def)

lemma callFacialRecognition_fault:
  "img \<noteq> [] \<Longrightarrow> face_api en img = Refused \<or> face_api en img = NoReply \<Longrightarrow>
   callFacialRecognition en (Some img) = (Returned service_unavailable, [Recognize img])"
  by (auto simp: callFacialRecognition_def)

lemma validateVisitor_not_recognised:
  "\<not> success r \<or> \<not> authenticated r \<Longrightarrow>
   validateVisitor en w r =
     (\<lparr>isAuthorized_v = False,
       visitorName = Some (if (\<exists>m. message r = Some m \<and> includes_js m ''unclassified'')
                           then ''unclassified'' else ''unknown'')\<rparr>, w)"
  by (cases "message r") (auto simp: validateVisitor_def)

lemma validateVisitor_no_names:
  "success r \<Longrightarrow> authenticated r \<Longrightarrow>
   recognized_names r = None \<or> recognized_names r = Some [] \<Longrightarrow>
   validateVisitor en w r = (\<lparr>isAuthorized_v = False, visitorName = Some ''unknown''\<rparr>, w)"
  by (auto simp: validateVisitor_def)

lemma sendPushNotification_frame:
  "recognition_results (sendPushNotification en w eventId r) = recognition_results w"
  "visitors (sendPushNotification en w eventId r) = visitors w"
  "doorbell_events (sendPushNotification en w eventId r) = doorbell_events w"
  "calls (sendPushNotification en w eventId r) = calls w @ [Send (notification eventId r)]"
  "delivered (sendPushNotification en w eventId r) =
     (if send_fails en then delivered w else delivered w @ [notification eventId r])"
  by (simp_all add: sendPushNotification_def record_call_def Let_def)

text \<open>The run of processDoorbellEvent once its first three stages have returned.\<close>

lemma processDoorbellEvent_written:
  assumes "actualTimestamp en ev = Inr ts"
    and "processedImage en ev = (Returned img, cs)"
    and "callFacialRecognition en img = (Returned r, cs')"
    and "validateVisitor en (add_calls (cs @ cs') w) r = (v, w3)"
    and "\<not> set_fails en"
  shows "processDoorbellEvent en w eventId ev =
           (Returned (),
            sendPushNotification en
              (record_call (SetResult eventId (finalResult en eventId ev ts img r v)) w3
                 \<lparr>recognition_results := (recognition_results w3)
                    (eventId \<mapsto> finalResult en eventId ev ts img r v)\<rparr>)
              eventId (finalResult en eventId ev ts img r v))"
proof -
  have "add_calls cs' (add_calls cs w) = add_calls (cs @ cs') w"
    by (simp add: add_calls_def)
  with assms show ?thesis
    by (simp add: processDoorbellEvent_def writeRecognitionResult_def Let_def record_call_def)
qed

subsection \<open>The claim guard\<close>

text \<open>
  C3. An event delivered with \<open>processed === true\<close> is skipped: the callback returns at
  once, with the world as it was. No claim update, no image fetch, no call of the
  recognition API, no write of a result and no notification is issued, since the list
  of calls is part of the world.
\<close>

theorem claimed_event_is_skipped:
  "processed ev = JBool True \<Longrightarrow> on_child_added en w eventId ev = (Returned (), w)"
  by (simp add: on_child_added_def)

theorem claimed_event_is_skipped_witness:
  "processed (bare_event\<lparr>processed := JBool True\<rparr>) = JBool True \<and>
   on_child_added env0 world0 ''e1'' (bare_event\<lparr>processed := JBool True\<rparr>)
     = (Returned (), world0)"
  using claimed_event_is_skipped [of "bare_event\<lparr>processed := JBool True\<rparr>" env0 world0 "''e1''"]
  by simp

subsection \<open>Events without an image, and faults of the recognition API\<close>

lemma processedImage_none:
  "\<not> truthy_str (image_ev ev) \<Longrightarrow> \<not> truthy_str (imageUrl ev) \<Longrightarrow>
   processedImage en ev = (Returned None, [])"
  by (simp add: processedImage_def)

text \<open>
  C6, for an event that carries a timestamp or a \<open>createdAt\<close> that is a date. An event
  with neither an inline image nor an image URL (each absent or empty):
  the image is \<open>null\<close>, the recognition stage answers without any request
  (\<open>success = false\<close>, message \<open>unclassified - no image\<close>), and the run still writes
  a result, with \<open>recognized = false\<close>, the name \<open>unclassified\<close> and
  \<open>authorized = false\<close>. The only calls of the run are the write of the result and the
  notification. The write of the result is accepted.
\<close>

theorem missing_image_is_unclassified:
  assumes "\<not> truthy_str (image_ev ev)" and "\<not> truthy_str (imageUrl ev)"
    and "actualTimestamp en ev = Inr ts"
    and "\<not> set_fails en"
  shows "processedImage en ev = (Returned None, []) \<and>
         callFacialRecognition en None = (Returned no_image, []) \<and>
         \<not> success no_image \<and>
         message no_image = Some ''unclassified - no image'' \<and>
         (\<exists>w' res. processDoorbellEvent en w eventId ev = (Returned (), w') \<and>
            calls w' = calls w @ [SetResult eventId res, Send (notification eventId res)] \<and>
            recognition_results w' = (recognition_results w)(eventId \<mapsto> res) \<and>
            visitors w' = visitors w \<and>
            \<not> recognized res \<and> name_r res = ''unclassified'' \<and> \<not> authorized res \<and>
            imageReference res = None)"
proof -
  have img: "processedImage en ev = (Returned None, [])"
    using assms(1,2) by (rule processedImage_none)
  have rec: "callFacialRecognition en None = (Returned no_image, [])"
    by (simp add: callFacialRecognition_null)
  have val: "validateVisitor en (add_calls ([] @ []) w) no_image =
      (\<lparr>isAuthorized_v = False, visitorName = Some ''unclassified''\<rparr>, add_calls ([] @ []) w)"
    by (simp add: validateVisitor_not_recognised no_image_def)
  let ?res = "finalResult en eventId ev ts None no_image
                \<lparr>isAuthorized_v = False, visitorName = Some ''unclassified''\<rparr>"
  have run: "processDoorbellEvent en w eventId ev =
      (Returned (),
       sendPushNotification en
         (record_call (SetResult eventId ?res) (add_calls ([] @ []) w)
            \<lparr>recognition_results :=
               (recognition_results (add_calls ([] @ []) w))(eventId \<mapsto> ?res)\<rparr>)
         eventId ?res)"
    using assms(3) img rec val assms(4) by (rule processDoorbellEvent_written)
  have fields: "\<not> recognized ?res \<and> name_r ?res = ''unclassified'' \<and> \<not> authorized ?res \<and>
      imageReference ?res = None"
    by (simp add: finalResult_def no_image_def or_default_def)
  show ?thesis
    using img rec fields
    by (simp add: run sendPushNotification_frame record_call_def add_calls_def no_image_def)
qed

theorem missing_image_is_unclassified_witness:
  "\<not> truthy_str (image_ev bare_event) \<and> \<not> truthy_str (imageUrl bare_event) \<and>
   actualTimestamp env0 bare_event = Inr (JStr ''2023-11-14T22:13:10Z'') \<and>
   \<not> set_fails env0 \<and>
   (\<exists>w' res. processDoorbellEvent env0 world0 ''e1'' bare_event = (Returned (), w') \<and>
      calls w' = [SetResult ''e1'' res, Send (notification ''e1'' res)] \<and>
      recognition_results w' ''e1'' = Some res \<and>
      \<not> recognized res \<and> name_r res = ''unclassified'' \<and> \<not> authorized res)"
proof -
  have a: "\<not> truthy_str (image_ev bare_event)" "\<not> truthy_str (imageUrl bare_event)"
    by (simp_all add: bare_event_def blank_event_def)
  have b: "actualTimestamp env0 bare_event = Inr (JStr ''2023-11-14T22:13:10Z'')"
    by (simp add: actualTimestamp_def bare_event_def blank_event_def)
  have c: "\<not> set_fails env0" by (simp add: env0_def)
  have d: "calls world0 = []" by (simp add: world0_def)
  show ?thesis
    using missing_image_is_unclassified [OF a b c, of world0 "''e1''"] a b c d by auto
qed

text \<open>
  C6 as it was worded, for every event without an image, fails for the event that has no
  field at all: the timestamp is computed before the image is looked at, the conversion
  of the missing \<open>createdAt\<close> throws, and the callback resets the claim without having
  written a result, though the write would have been accepted.
\<close>

theorem missing_image_and_timestamp:
  "\<not> truthy_str (image_ev blank_event) \<and> \<not> truthy_str (imageUrl blank_event) \<and>
   \<not> set_fails env0 \<and> \<not> update_fails env0 True \<and> \<not> update_fails env0 False \<and>
   processDoorbellEvent env0 world0 ''e1'' blank_event = (Threw RangeError, world0) \<and>
   fst (on_child_added env0 world0 ''e1'' blank_event) = Returned () \<and>
   calls (snd (on_child_added env0 world0 ''e1'' blank_event))
     = [Update ''e1'' True, Update ''e1'' False] \<and>
   recognition_results (snd (on_child_added env0 world0 ''e1'' blank_event)) ''e1'' = None"
proof -
  have ev: "\<not> truthy_str (image_ev blank_event)" "\<not> truthy_str (imageUrl blank_event)"
    "processed blank_event \<noteq> JBool True"
    by (simp_all add: blank_event_def)
  have en: "\<not> set_fails env0" "\<not> update_fails env0 True" "\<not> update_fails env0 False"
    by (simp_all add: env0_def)
  have throws: "\<And>w. processDoorbellEvent env0 w ''e1'' blank_event = (Threw RangeError, w)"
    by (simp add: processDoorbellEvent_def actualTimestamp_def blank_event_def)
  have w: "calls world0 = []" "recognition_results world0 ''e1'' = None"
    by (simp_all add: world0_def)
  have "fst (on_child_added env0 world0 ''e1'' blank_event) = Returned () \<and>
      calls (snd (on_child_added env0 world0 ''e1'' blank_event))
        = [Update ''e1'' True, Update ''e1'' False] \<and>
      recognition_results (snd (on_child_added env0 world0 ''e1'' blank_event)) ''e1'' = None"
    using ev(3) en w
    by (simp add: on_child_added_def claim_and_process_def update_processed_def Let_def
          record_call_def throws)
  with ev en throws show ?thesis by simp
qed

text \<open>
  C2. A fault of the request to the recognition API (the server refuses, answers outside
  2xx, or stays silent until the timeout of 30000 ms) is caught inside
  callFacialRecognition, which returns \<open>success = false\<close>; that stage returns for every
  input, it never throws. The run then writes a result with \<open>recognized = false\<close>, the
  name \<open>unclassified\<close> and \<open>authorized = false\<close>, and sends the notification after the
  write.
\<close>

theorem oracle_fault_is_unclassified:
  assumes ts: "actualTimestamp en ev = Inr ts"
    and img: "processedImage en ev = (Returned (Some img), cs)"
    and nonempty: "img \<noteq> []"
    and fault: "face_api en img = Refused \<or> face_api en img = NoReply"
    and sink: "\<not> set_fails en"
  shows "callFacialRecognition en (Some img) = (Returned service_unavailable, [Recognize img]) \<and>
         \<not> success service_unavailable \<and>
         (\<forall>b. \<exists>r cs. callFacialRecognition en b = (Returned r, cs)) \<and>
         (\<exists>w' res. processDoorbellEvent en w eventId ev = (Returned (), w') \<and>
            calls w' = calls w @ cs @
              [Recognize img, SetResult eventId res, Send (notification eventId res)] \<and>
            recognition_results w' = (recognition_results w)(eventId \<mapsto> res) \<and>
            visitors w' = visitors w \<and>
            \<not> recognized res \<and> name_r res = ''unclassified'' \<and> \<not> authorized res)"
proof -
  have rec: "callFacialRecognition en (Some img) = (Returned service_unavailable, [Recognize img])"
    using nonempty fault by (rule callFacialRecognition_fault)
  let ?w2 = "add_calls (cs @ [Recognize img]) w"
  let ?v = "\<lparr>isAuthorized_v = False, visitorName = Some ''unclassified''\<rparr>"
  have val: "validateVisitor en ?w2 service_unavailable = (?v, ?w2)"
    by (simp add: validateVisitor_not_recognised service_unavailable_def)
  let ?res = "finalResult en eventId ev ts (Some img) service_unavailable ?v"
  have run: "processDoorbellEvent en w eventId ev =
      (Returned (),
       sendPushNotification en
         (record_call (SetResult eventId ?res) ?w2
            \<lparr>recognition_results := (recognition_results ?w2)(eventId \<mapsto> ?res)\<rparr>)
         eventId ?res)"
    using ts img rec val sink by (rule processDoorbellEvent_written)
  have fields: "\<not> recognized ?res \<and> name_r ?res = ''unclassified'' \<and> \<not> authorized ?res"
    by (simp add: finalResult_def service_unavailable_def or_default_def)
  have every: "\<forall>b. \<exists>r cs. callFacialRecognition en b = (Returned r, cs)"
    by (simp add: callFacialRecognition_returns)
  have "\<exists>w' res. processDoorbellEvent en w eventId ev = (Returned (), w') \<and>
            calls w' = calls w @ cs @
              [Recognize img, SetResult eventId res, Send (notification eventId res)] \<and>
            recognition_results w' = (recognition_results w)(eventId \<mapsto> res) \<and>
            visitors w' = visitors w \<and>
            \<not> recognized res \<and> name_r res = ''unclassified'' \<and> \<not> authorized res"
    using fields
    by (simp add: run sendPushNotification_frame record_call_def add_calls_def)
  with rec every show ?thesis
    by (simp add: service_unavailable_def)
qed

theorem oracle_fault_is_unclassified_witness:
  "actualTimestamp env0 (url_event ''http://cam/1.jpg'')
     = Inr (JStr ''2023-11-14T22:13:20.000Z'') \<and>
   processedImage env0 (url_event ''http://cam/1.jpg'')
     = (Returned (Some ''QUxJ''), [HttpGet ''http://cam/1.jpg'']) \<and>
   face_api (env0\<lparr>face_api := \<lambda>img. NoReply\<rparr>) ''QUxJ'' = NoReply \<and>
   \<not> set_fails env0 \<and>
   (\<exists>w' res. processDoorbellEvent (env0\<lparr>face_api := \<lambda>img. NoReply\<rparr>) world0 ''e1''
                 (url_event ''http://cam/1.jpg'') = (Returned (), w') \<and>
      calls w' = [HttpGet ''http://cam/1.jpg'', Recognize ''QUxJ'', SetResult ''e1'' res,
                  Send (notification ''e1'' res)] \<and>
      recognition_results w' ''e1'' = Some res \<and>
      \<not> recognized res \<and> name_r res = ''unclassified'' \<and> \<not> authorized res)"
proof -
  let ?en = "env0\<lparr>face_api := \<lambda>img. NoReply\<rparr>"
  let ?ev = "url_event ''http://cam/1.jpg''"
  have a: "actualTimestamp ?en ?ev = Inr (JStr ''2023-11-14T22:13:20.000Z'')"
    by (simp add: actualTimestamp_def url_event_def blank_event_def env0_def max_time_def)
  have b: "processedImage ?en ?ev = (Returned (Some ''QUxJ''), [HttpGet ''http://cam/1.jpg''])"
    by (simp add: processedImage_def url_event_def blank_event_def env0_def)
  have c: "''QUxJ'' \<noteq> []" by simp
  have d: "face_api ?en ''QUxJ'' = Refused \<or> face_api ?en ''QUxJ'' = NoReply" by simp
  have e: "\<not> set_fails ?en" by (simp add: env0_def)
  have f: "calls world0 = []" by (simp add: world0_def)
  have a': "actualTimestamp env0 ?ev = Inr (JStr ''2023-11-14T22:13:20.000Z'')"
    by (simp add: actualTimestamp_def url_event_def blank_event_def env0_def max_time_def)
  have b': "processedImage env0 ?ev = (Returned (Some ''QUxJ''), [HttpGet ''http://cam/1.jpg''])"
    by (simp add: processedImage_def url_event_def blank_event_def env0_def)
  show ?thesis
    using oracle_fault_is_unclassified [OF a b c d e, of world0 "''e1''"] a' b' e f by auto
qed

subsection \<open>Unrecognised faces\<close>

text \<open>
  C5. When the answer of the recognition stage has \<open>success = false\<close> or
  \<open>authenticated = false\<close>, the written result has \<open>authorized = false\<close> and its name
  is \<open>unclassified\<close> exactly when the message contains the text \<open>unclassified\<close>, else
  \<open>unknown\<close> (also when there is no message). When the answer is a success that is
  authenticated but names nobody (no list, or an empty one), the result is \<open>unknown\<close>
  and not authorized. The visitors collection is not consulted in either case.
\<close>

theorem unauthenticated_is_unknown_or_unclassified:
  assumes ts: "actualTimestamp en ev = Inr ts"
    and img: "processedImage en ev = (Returned img, cs)"
    and rec: "callFacialRecognition en img = (Returned r, cs')"
    and sink: "\<not> set_fails en"
  shows "(\<not> success r \<or> \<not> authenticated r \<longrightarrow>
            (\<exists>w' res. processDoorbellEvent en w eventId ev = (Returned (), w') \<and>
               recognition_results w' = (recognition_results w)(eventId \<mapsto> res) \<and>
               calls w' = calls w @ cs @ cs' @
                 [SetResult eventId res, Send (notification eventId res)] \<and>
               visitors w' = visitors w \<and>
               \<not> authorized res \<and>
               name_r res = (if \<exists>m. message r = Some m \<and> includes_js m ''unclassified''
                             then ''unclassified'' else ''unknown''))) \<and>
         (success r \<and> authenticated r \<and>
            (recognized_names r = None \<or> recognized_names r = Some []) \<longrightarrow>
            (\<exists>w' res. processDoorbellEvent en w eventId ev = (Returned (), w') \<and>
               recognition_results w' = (recognition_results w)(eventId \<mapsto> res) \<and>
               calls w' = calls w @ cs @ cs' @
                 [SetResult eventId res, Send (notification eventId res)] \<and>
               visitors w' = visitors w \<and>
               \<not> authorized res \<and> name_r res = ''unknown''))"
proof (intro conjI impI)
  let ?w2 = "add_calls (cs @ cs') w"
  {
    fix v
    assume val: "validateVisitor en ?w2 r = (v, ?w2)"
    let ?res = "finalResult en eventId ev ts img r v"
    have "processDoorbellEvent en w eventId ev =
        (Returned (),
         sendPushNotification en
           (record_call (SetResult eventId ?res) ?w2
              \<lparr>recognition_results := (recognition_results ?w2)(eventId \<mapsto> ?res)\<rparr>)
           eventId ?res)"
      using ts img rec val sink by (rule processDoorbellEvent_written)
    then have "\<exists>w'. processDoorbellEvent en w eventId ev = (Returned (), w') \<and>
        recognition_results w' = (recognition_results w)(eventId \<mapsto> ?res) \<and>
        calls w' = calls w @ cs @ cs' @ [SetResult eventId ?res, Send (notification eventId ?res)] \<and>
        visitors w' = visitors w"
      by (simp add: sendPushNotification_frame record_call_def add_calls_def)
  }
  note run = this
  {
    assume no: "\<not> success r \<or> \<not> authenticated r"
    let ?n = "if \<exists>m. message r = Some m \<and> includes_js m ''unclassified''
              then ''unclassified'' else ''unknown''"
    let ?v = "\<lparr>isAuthorized_v = False, visitorName = Some ?n\<rparr>"
    have val: "validateVisitor en ?w2 r = (?v, ?w2)"
      using no by (rule validateVisitor_not_recognised)
    have "\<not> authorized (finalResult en eventId ev ts img r ?v) \<and>
          name_r (finalResult en eventId ev ts img r ?v) = ?n"
      by (simp add: finalResult_def or_default_def)
    with run [OF val]
    show "\<exists>w' res. processDoorbellEvent en w eventId ev = (Returned (), w') \<and>
               recognition_results w' = (recognition_results w)(eventId \<mapsto> res) \<and>
               calls w' = calls w @ cs @ cs' @
                 [SetResult eventId res, Send (notification eventId res)] \<and>
               visitors w' = visitors w \<and>
               \<not> authorized res \<and> name_r res = ?n"
      by blast
  }
  {
    assume yes: "success r \<and> authenticated r \<and>
      (recognized_names r = None \<or> recognized_names r = Some [])"
    let ?v = "\<lparr>isAuthorized_v = False, visitorName = Some ''unknown''\<rparr>"
    have val: "validateVisitor en ?w2 r = (?v, ?w2)"
      using yes by (simp add: validateVisitor_no_names)
    have "\<not> authorized (finalResult en eventId ev ts img r ?v) \<and>
          name_r (finalResult en eventId ev ts img r ?v) = ''unknown''"
      by (simp add: finalResult_def or_default_def)
    with run [OF val]
    show "\<exists>w' res. processDoorbellEvent en w eventId ev = (Returned (), w') \<and>
               recognition_results w' = (recognition_results w)(eventId \<mapsto> res) \<and>
               calls w' = calls w @ cs @ cs' @
                 [SetResult eventId res, Send (notification eventId res)] \<and>
               visitors w' = visitors w \<and>
               \<not> authorized res \<and> name_r res = ''unknown''"
      by blast
  }
qed

lemma inline_event_stages:
  "img \<noteq> [] \<Longrightarrow> actualTimestamp en (inline_event img) = Inr (JNum 1699999990000)"
  "img \<noteq> [] \<Longrightarrow> processedImage en (inline_event img) = (Returned (Some img), [])"
  by (simp_all add: actualTimestamp_def processedImage_def inline_event_def blank_event_def)

lemma api0_answers:
  "callFacialRecognition env0 (Some ''Pz8/'')
     = (Returned (answer False ''No match found'' []), [Recognize ''Pz8/''])"
  "callFacialRecognition env0 (Some ''Tk9GQUNF'')
     = (Returned (answer False ''unclassified - no face'' []), [Recognize ''Tk9GQUNF''])"
  "callFacialRecognition env0 (Some ''Tk9ORQ=='')
     = (Returned (answer True ''Authenticated'' []), [Recognize ''Tk9ORQ==''])"
  "callFacialRecognition env0 (Some ''QUxJ'')
     = (Returned (answer True ''Authenticated as ali'' [''Stranger'', ''ali'', ''Abdul'']),
        [Recognize ''QUxJ''])"
  "callFacialRecognition env0 (Some ''RU1Q'')
     = (Returned (answer True ''Authenticated'' [[], ''ali'']), [Recognize ''RU1Q''])"
  by (simp_all add: callFacialRecognition_def env0_def api0_def)

theorem unauthenticated_is_unknown_or_unclassified_witness:
  "\<not> authenticated (answer False ''No match found'' []) \<and>
   (\<exists>w' res. processDoorbellEvent env0 world0 ''e1'' (inline_event ''Pz8/'') = (Returned (), w') \<and>
      recognition_results w' ''e1'' = Some res \<and>
      \<not> authorized res \<and> name_r res = ''unknown'') \<and>
   \<not> authenticated (answer False ''unclassified - no face'' []) \<and>
   (\<exists>w' res. processDoorbellEvent env0 world0 ''e2'' (inline_event ''Tk9GQUNF'') = (Returned (), w') \<and>
      recognition_results w' ''e2'' = Some res \<and>
      \<not> authorized res \<and> name_r res = ''unclassified'') \<and>
   authenticated (answer True ''Authenticated'' []) \<and>
   recognized_names (answer True ''Authenticated'' []) = Some [] \<and>
   (\<exists>w' res. processDoorbellEvent env0 world0 ''e3'' (inline_event ''Tk9ORQ=='') = (Returned (), w') \<and>
      recognition_results w' ''e3'' = Some res \<and>
      \<not> authorized res \<and> name_r res = ''unknown'')"
proof -
  have sink: "\<not> set_fails env0" by (simp add: env0_def)
  have 1: "\<exists>w' res. processDoorbellEvent env0 world0 ''e1'' (inline_event ''Pz8/'') = (Returned (), w') \<and>
      recognition_results w' ''e1'' = Some res \<and> \<not> authorized res \<and> name_r res = ''unknown''"
    using unauthenticated_is_unknown_or_unclassified
      [where w = world0 and eventId = "''e1''",
       OF inline_event_stages(1) inline_event_stages(2) api0_answers(1) sink]
    by (auto simp: answer_def)
  have 2: "\<exists>w' res. processDoorbellEvent env0 world0 ''e2'' (inline_event ''Tk9GQUNF'') = (Returned (), w') \<and>
      recognition_results w' ''e2'' = Some res \<and> \<not> authorized res \<and> name_r res = ''unclassified''"
    using unauthenticated_is_unknown_or_unclassified
      [where w = world0 and eventId = "''e2''",
       OF inline_event_stages(1) inline_event_stages(2) api0_answers(2) sink]
    by (auto simp: answer_def)
  have 3: "\<exists>w' res. processDoorbellEvent env0 world0 ''e3'' (inline_event ''Tk9ORQ=='') = (Returned (), w') \<and>
      recognition_results w' ''e3'' = Some res \<and> \<not> authorized res \<and> name_r res = ''unknown''"
    using unauthenticated_is_unknown_or_unclassified
      [where w = world0 and eventId = "''e3''",
       OF inline_event_stages(1) inline_event_stages(2) api0_answers(3) sink]
    by (auto simp: answer_def)
  show ?thesis using 1 2 3 by (simp add: answer_def)
qed

subsection \<open>What a run leaves untouched\<close>

lemma findOne_frame:
  assumes "findOne en w nm = (r, w')"
  shows "doorbell_events w' = doorbell_events w \<and> visitors w' = visitors w \<and>
         recognition_results w' = recognition_results w \<and> delivered w' = delivered w \<and>
         (\<exists>cs. calls w' = calls w @ cs \<and> list_all store_call cs)"
proof (cases "RegExp_i en nm")
  case None
  with assms have "w' = w" by (simp add: findOne_def)
  then show ?thesis by simp
next
  case (Some m)
  with assms have "w' = record_call (FindOne nm) w"
    by (simp add: findOne_def split: if_splits)
  then show ?thesis by (simp add: record_call_def)
qed

lemma lookup_names_frame:
  "lookup_names en w ns rest = (r, w') \<Longrightarrow>
   doorbell_events w' = doorbell_events w \<and>
   recognition_results w' = recognition_results w \<and> delivered w' = delivered w \<and>
   (\<exists>cs. calls w' = calls w @ cs \<and> list_all store_call cs)"
proof (induction rest arbitrary: w)
  case Nil
  then show ?case by simp
next
  case (Cons nm rest)
  obtain a w1 where f: "findOne en w nm = (a, w1)" by (cases "findOne en w nm")
  note fr = findOne_frame [OF f]
  from fr obtain cs1 where cs1: "calls w1 = calls w @ cs1" "list_all store_call cs1" by blast
  show ?case
  proof (cases a)
    case (Inl e)
    with Cons.prems f have "w' = w1" by simp
    with fr show ?thesis by simp
  next
    case (Inr found)
    show ?thesis
    proof (cases found)
      case None
      with Inr Cons.prems f have "lookup_names en w1 ns rest = (r, w')" by simp
      from Cons.IH [OF this] obtain cs2 where
        "doorbell_events w' = doorbell_events w1" "recognition_results w' = recognition_results w1"
        "delivered w' = delivered w1" "calls w' = calls w1 @ cs2" "list_all store_call cs2"
        by blast
      with fr cs1 show ?thesis by simp
    next
      case (Some iv)
      obtain i v where iv: "iv = (i, v)" by (cases iv)
      let ?v' = "v\<lparr>visitCount := Number_plus (visitCount v) 1,
                   lastVisit := Some (visit_clock en)\<rparr>"
      from Some iv Inr Cons.prems f
      have "w' = record_call (Save i) w1 \<or>
            w' = (record_call (Save i) w1)\<lparr>visitors := (visitors (record_call (Save i) w1))[i := ?v']\<rparr>"
        by (simp add: Let_def split: if_splits)
      then have "doorbell_events w' = doorbell_events w1 \<and>
          recognition_results w' = recognition_results w1 \<and> delivered w' = delivered w1 \<and>
          calls w' = calls w1 @ [Save i]"
        by (auto simp: record_call_def)
      with fr cs1 show ?thesis by simp
    qed
  qed
qed

lemma validateVisitor_frame:
  assumes "validateVisitor en w r = (v, w')"
  shows "doorbell_events w' = doorbell_events w \<and>
         recognition_results w' = recognition_results w \<and> delivered w' = delivered w \<and>
         (\<exists>cs. calls w' = calls w @ cs \<and> list_all store_call cs)"
proof -
  let ?ns = "case recognized_names r of None \<Rightarrow> [] | Some ns \<Rightarrow> ns"
  obtain a w1 where l: "lookup_names en w ?ns ?ns = (a, w1)"
    by (cases "lookup_names en w ?ns ?ns")
  from assms l have "w' = w \<or> w' = w1"
    by (auto simp: validateVisitor_def Let_def split: if_splits sum.splits)
  with lookup_names_frame [OF l] show ?thesis by auto
qed

lemma processedImage_calls:
  "processedImage en ev = (out, cs) \<Longrightarrow> (\<forall>m. Send m \<notin> set cs) \<and> (\<forall>e. out \<noteq> Threw e)"
  by (auto simp: processedImage_def split: if_splits option.splits sum.splits)

lemma callFacialRecognition_calls:
  "callFacialRecognition en b = (out, cs) \<Longrightarrow> \<forall>m. Send m \<notin> set cs"
  by (auto simp: callFacialRecognition_def split: if_splits option.splits sum.splits)

lemma store_call_not_Send: "list_all store_call cs \<Longrightarrow> Send m \<notin> set cs"
  by (induction cs) auto

text \<open>
  A run of processDoorbellEvent that throws has sent no notification and stored no
  result, and has left the events untouched.
\<close>

lemma processDoorbellEvent_threw:
  assumes "processDoorbellEvent en w eventId ev = (Threw e, w')"
  shows "doorbell_events w' = doorbell_events w \<and>
         recognition_results w' = recognition_results w \<and> delivered w' = delivered w \<and>
         (\<exists>cs. calls w' = calls w @ cs \<and> (\<forall>m. Send m \<notin> set cs))"
proof (cases "actualTimestamp en ev")
  case (Inl e')
  with assms have "w' = w" by (simp add: processDoorbellEvent_def)
  then show ?thesis by simp
next
  case (Inr ts)
  obtain o1 cs where img: "processedImage en ev = (o1, cs)" by (cases "processedImage en ev")
  note c1 = processedImage_calls [OF img]
  show ?thesis
  proof (cases o1)
    case (Returned b)
    obtain r cs' where rec: "callFacialRecognition en b = (Returned r, cs')"
      using callFacialRecognition_returns by blast
    note c2 = callFacialRecognition_calls [OF rec]
    let ?w2 = "add_calls cs' (add_calls cs w)"
    obtain v w3 where val: "validateVisitor en ?w2 r = (v, w3)"
      by (cases "validateVisitor en ?w2 r")
    from validateVisitor_frame [OF val] obtain cs3 where
      fr: "doorbell_events w3 = doorbell_events ?w2" "recognition_results w3 = recognition_results ?w2"
          "delivered w3 = delivered ?w2" "calls w3 = calls ?w2 @ cs3" "list_all store_call cs3"
      by blast
    let ?res = "finalResult en eventId ev ts b r v"
    from assms Inr img Returned rec val
    have "w' = record_call (SetResult eventId ?res) w3"
      by (simp add: processDoorbellEvent_def writeRecognitionResult_def Let_def split: if_splits)
    then have "doorbell_events w' = doorbell_events w \<and>
        recognition_results w' = recognition_results w \<and> delivered w' = delivered w \<and>
        calls w' = calls w @ (cs @ cs' @ cs3 @ [SetResult eventId ?res])"
      using fr by (simp add: record_call_def add_calls_def)
    moreover have "\<forall>m. Send m \<notin> set (cs @ cs' @ cs3 @ [SetResult eventId ?res])"
      using c1 c2 store_call_not_Send [OF fr(5)] by simp
    ultimately show ?thesis by blast
  next
    case (Threw e')
    with c1 show ?thesis by simp
  next
    case Pending
    with assms Inr img show ?thesis by (simp add: processDoorbellEvent_def)
  qed
qed

lemma update_processed_frame:
  "calls (snd (update_processed en w eventId b)) = calls w @ [Update eventId b]"
  "recognition_results (snd (update_processed en w eventId b)) = recognition_results w"
  "visitors (snd (update_processed en w eventId b)) = visitors w"
  "delivered (snd (update_processed en w eventId b)) = delivered w"
  by (simp_all add: update_processed_def record_call_def Let_def)

lemma update_processed_accepted:
  "\<not> update_fails en b \<Longrightarrow>
   fst (update_processed en w eventId b) = Returned () \<and>
   (\<exists>e. doorbell_events (snd (update_processed en w eventId b)) eventId = Some e \<and>
        processed e = JBool b)"
  by (cases "doorbell_events w eventId")
     (simp_all add: update_processed_def record_call_def Let_def)

text \<open>The \<open>try\<close> of the listener, when it throws.\<close>

lemma claim_and_process_threw:
  assumes "claim_and_process en w eventId ev = (Threw e, w2)"
  shows "recognition_results w2 = recognition_results w \<and> delivered w2 = delivered w \<and>
         (\<exists>cs. calls w2 = calls w @ Update eventId True # cs \<and> (\<forall>m. Send m \<notin> set cs))"
proof (cases "update_fails en True")
  case True
  with assms have "w2 = record_call (Update eventId True) w"
    by (simp add: claim_and_process_def update_processed_def Let_def)
  then show ?thesis by (simp add: record_call_def)
next
  case False
  obtain w1 where u: "update_processed en w eventId True = (Returned (), w1)"
    using False by (simp add: update_processed_def Let_def)
  have w1: "calls w1 = calls w @ [Update eventId True]"
    "recognition_results w1 = recognition_results w" "delivered w1 = delivered w"
    using update_processed_frame [of en w eventId True] u by simp_all
  from u assms have "processDoorbellEvent en w1 eventId ev = (Threw e, w2)"
    by (simp add: claim_and_process_def)
  from processDoorbellEvent_threw [OF this] obtain cs where
    "recognition_results w2 = recognition_results w1" "delivered w2 = delivered w1"
    "calls w2 = calls w1 @ cs" "\<forall>m. Send m \<notin> set cs"
    by blast
  with w1 show ?thesis by simp
qed

subsection \<open>Failed runs\<close>

text \<open>
  C10. An event with neither \<open>timestamp\<close> nor \<open>createdAt\<close>: processDoorbellEvent
  throws a RangeError at once, in the world it was given, so before any image fetch and
  any call of the recognition API. Whatever the \<open>processed\<close> flag of the delivered
  event, the callback writes no result. For an event not yet claimed, the calls of the
  callback are the claim and its reset and nothing else, and once the reset is accepted
  the event is stored with \<open>processed = false\<close>.
\<close>

theorem missing_timestamp_throws:
  assumes "timestamp ev = Undefined" and "createdAt ev = Undefined"
  shows "processDoorbellEvent en w1 eventId ev = (Threw RangeError, w1) \<and>
         recognition_results (snd (on_child_added en w eventId ev)) = recognition_results w \<and>
         (processed ev \<noteq> JBool True \<longrightarrow>
            calls (snd (on_child_added en w eventId ev))
              = calls w @ [Update eventId True, Update eventId False] \<and>
            visitors (snd (on_child_added en w eventId ev)) = visitors w \<and>
            delivered (snd (on_child_added en w eventId ev)) = delivered w \<and>
            (\<not> update_fails en False \<longrightarrow>
               fst (on_child_added en w eventId ev) = Returned () \<and>
               (\<exists>e. doorbell_events (snd (on_child_added en w eventId ev)) eventId = Some e \<and>
                    processed e = JBool False)))"
proof -
  have throws: "\<And>w1. processDoorbellEvent en w1 eventId ev = (Threw RangeError, w1)"
    using assms by (simp add: processDoorbellEvent_def actualTimestamp_def)
  obtain e w2 where cp: "claim_and_process en w eventId ev = (Threw e, w2)"
    and w2: "calls w2 = calls w @ [Update eventId True]"
      "recognition_results w2 = recognition_results w" "visitors w2 = visitors w"
      "delivered w2 = delivered w"
    using throws
    by (cases "update_fails en True")
       (auto simp: claim_and_process_def update_processed_def Let_def record_call_def)
  have run: "processed ev \<noteq> JBool True \<Longrightarrow>
      on_child_added en w eventId ev = update_processed en w2 eventId False"
    using cp by (simp add: on_child_added_def)
  have skip: "processed ev = JBool True \<Longrightarrow> on_child_added en w eventId ev = (Returned (), w)"
    by (simp add: on_child_added_def)
  have res: "recognition_results (snd (on_child_added en w eventId ev)) = recognition_results w"
    using run skip w2 by (cases "processed ev = JBool True") (simp_all add: update_processed_frame)
  show ?thesis
    using throws res run w2 update_processed_accepted [of en False w2 eventId]
    by (auto simp: update_processed_frame)
qed

theorem missing_timestamp_throws_witness:
  "timestamp blank_event = Undefined \<and> createdAt blank_event = Undefined \<and>
   processed blank_event \<noteq> JBool True \<and> \<not> update_fails env0 False \<and>
   processDoorbellEvent env0 world0 ''e1'' blank_event = (Threw RangeError, world0) \<and>
   recognition_results (snd (on_child_added env0 world0 ''e1'' blank_event)) ''e1'' = None \<and>
   calls (snd (on_child_added env0 world0 ''e1'' blank_event))
     = [Update ''e1'' True, Update ''e1'' False] \<and>
   (\<exists>e. doorbell_events (snd (on_child_added env0 world0 ''e1'' blank_event)) ''e1'' = Some e \<and>
        processed e = JBool False)"
proof -
  have a: "timestamp blank_event = Undefined" "createdAt blank_event = Undefined"
    by (simp_all add: blank_event_def)
  have b: "processed blank_event \<noteq> JBool True" by (simp add: blank_event_def)
  have c: "\<not> update_fails env0 False" by (simp add: env0_def)
  have d: "calls world0 = []" "recognition_results world0 ''e1'' = None"
    by (simp_all add: world0_def)
  show ?thesis
    using missing_timestamp_throws [OF a, of env0 world0 "''e1''" world0] a b c d by simp
qed

text \<open>
  C4. When the \<open>try\<close> of the listener throws for an event that was not yet claimed, the
  last call of the callback is the reset \<open>processed: false\<close>; the run has sent no
  notification and stored no result; and once the reset is accepted the event is stored
  with \<open>processed = false\<close>, so that it can be processed again. A rejected write of the
  result is such a failure: with it, a run that settles throws.
\<close>

theorem failed_run_resets_claim:
  assumes "processed ev \<noteq> JBool True"
  shows "(set_fails en \<and> fst (claim_and_process en w eventId ev) \<noteq> Pending \<longrightarrow>
            (\<exists>e. fst (claim_and_process en w eventId ev) = Threw e)) \<and>
         (\<forall>e w2. claim_and_process en w eventId ev = (Threw e, w2) \<longrightarrow>
            (\<exists>cs. calls (snd (on_child_added en w eventId ev))
                     = calls w @ Update eventId True # cs @ [Update eventId False] \<and>
                   (\<forall>m. Send m \<notin> set cs)) \<and>
            delivered (snd (on_child_added en w eventId ev)) = delivered w \<and>
            recognition_results (snd (on_child_added en w eventId ev)) = recognition_results w \<and>
            (\<not> update_fails en False \<longrightarrow>
               fst (on_child_added en w eventId ev) = Returned () \<and>
               (\<exists>e'. doorbell_events (snd (on_child_added en w eventId ev)) eventId = Some e' \<and>
                     processed e' = JBool False)))"
proof (intro conjI allI impI)
  assume sf: "set_fails en \<and> fst (claim_and_process en w eventId ev) \<noteq> Pending"
  show "\<exists>e. fst (claim_and_process en w eventId ev) = Threw e"
  proof (cases "fst (claim_and_process en w eventId ev)")
    case (Returned u)
    obtain w1 where u: "update_processed en w eventId True = (Returned (), w1)"
      using Returned
      by (cases "update_fails en True")
         (auto simp: claim_and_process_def update_processed_def Let_def)
    with Returned have p: "fst (processDoorbellEvent en w1 eventId ev) = Returned ()"
      by (simp add: claim_and_process_def)
    have False
    proof (cases "actualTimestamp en ev")
      case (Inl e)
      with p show False by (simp add: processDoorbellEvent_def)
    next
      case (Inr ts)
      obtain o1 cs where img: "processedImage en ev = (o1, cs)"
        by (cases "processedImage en ev")
      show False
      proof (cases o1)
        case (Returned b)
        obtain r cs' where rec: "callFacialRecognition en b = (Returned r, cs')"
          using callFacialRecognition_returns by blast
        from p Inr img Returned rec sf show False
          by (simp add: processDoorbellEvent_def writeRecognitionResult_def Let_def
                   split: prod.splits)
      next
        case (Threw e)
        with p Inr img show False by (simp add: processDoorbellEvent_def)
      next
        case Pending
        with p Inr img show False by (simp add: processDoorbellEvent_def)
      qed
    qed
    then show ?thesis ..
  next
    case (Threw e)
    then show ?thesis by blast
  next
    case Pending
    with sf show ?thesis by simp
  qed
next
  fix e w2
  assume cp: "claim_and_process en w eventId ev = (Threw e, w2)"
  have run: "on_child_added en w eventId ev = update_processed en w2 eventId False"
    using assms cp by (simp add: on_child_added_def)
  from claim_and_process_threw [OF cp] obtain cs where
    fr: "recognition_results w2 = recognition_results w" "delivered w2 = delivered w"
        "calls w2 = calls w @ Update eventId True # cs" "\<forall>m. Send m \<notin> set cs"
    by blast
  show "\<exists>cs. calls (snd (on_child_added en w eventId ev))
                = calls w @ Update eventId True # cs @ [Update eventId False] \<and>
              (\<forall>m. Send m \<notin> set cs)"
    using fr by (auto simp: run update_processed_frame)
  show "delivered (snd (on_child_added en w eventId ev)) = delivered w"
    using fr by (simp add: run update_processed_frame)
  show "recognition_results (snd (on_child_added en w eventId ev)) = recognition_results w"
    using fr by (simp add: run update_processed_frame)
  {
    assume acc: "\<not> update_fails en False"
    from update_processed_accepted [OF acc, of w2 eventId]
    show "fst (on_child_added en w eventId ev) = Returned ()"
      by (simp add: run)
    from update_processed_accepted [OF acc, of w2 eventId]
    show "\<exists>e'. doorbell_events (snd (on_child_added en w eventId ev)) eventId = Some e' \<and>
               processed e' = JBool False"
      by (simp add: run)
  }
qed

theorem failed_run_resets_claim_witness:
  "processed bare_event \<noteq> JBool True \<and>
   set_fails (env0\<lparr>set_fails := True\<rparr>) \<and>
   \<not> update_fails (env0\<lparr>set_fails := True\<rparr>) False \<and>
   fst (claim_and_process (env0\<lparr>set_fails := True\<rparr>) world0 ''e1'' bare_event)
     = Threw FirebaseError \<and>
   (\<exists>cs. calls (snd (on_child_added (env0\<lparr>set_fails := True\<rparr>) world0 ''e1'' bare_event))
            = Update ''e1'' True # cs @ [Update ''e1'' False] \<and>
          (\<forall>m. Send m \<notin> set cs)) \<and>
   delivered (snd (on_child_added (env0\<lparr>set_fails := True\<rparr>) world0 ''e1'' bare_event)) = [] \<and>
   recognition_results (snd (on_child_added (env0\<lparr>set_fails := True\<rparr>) world0 ''e1'' bare_event))
     ''e1'' = None \<and>
   (\<exists>e'. doorbell_events (snd (on_child_added (env0\<lparr>set_fails := True\<rparr>) world0 ''e1'' bare_event))
            ''e1'' = Some e' \<and>
         processed e' = JBool False)"
proof -
  let ?en = "env0\<lparr>set_fails := True\<rparr>"
  have a: "processed bare_event \<noteq> JBool True" by (simp add: bare_event_def blank_event_def)
  have b: "set_fails ?en" by simp
  have c: "\<not> update_fails ?en False" by (simp add: env0_def)
  have d: "fst (claim_and_process ?en world0 ''e1'' bare_event) = Threw FirebaseError"
    by (simp add: run_defs deploy_defs Let_def)
  then have cp: "claim_and_process ?en world0 ''e1'' bare_event
      = (Threw FirebaseError, snd (claim_and_process ?en world0 ''e1'' bare_event))"
    by (metis prod.collapse)
  have w: "calls world0 = []" "delivered world0 = []" "recognition_results world0 ''e1'' = None"
    by (simp_all add: world0_def)
  note t = failed_run_resets_claim [OF a, of ?en world0 "''e1''", THEN conjunct2, rule_format, OF cp]
  show ?thesis
    using t a b c d w by simp
qed

subsection \<open>The lookup in the visitors collection\<close>

lemma first_from_None: "first_from k P xs = None \<longleftrightarrow> (\<forall>x\<in>set xs. \<not> P x)"
  by (induction xs arbitrary: k) auto

lemma first_from_Some:
  "i < length xs \<Longrightarrow> P (xs ! i) \<Longrightarrow> \<forall>j<i. \<not> P (xs ! j) \<Longrightarrow>
   first_from k P xs = Some (k + i, xs ! i)"
proof (induction xs arbitrary: k i)
  case Nil
  then show ?case by simp
next
  case (Cons x xs)
  show ?case
  proof (cases i)
    case 0
    with Cons.prems show ?thesis by simp
  next
    case (Suc i')
    from Cons.prems Suc have "\<not> P x" by auto
    moreover from Cons.prems Suc have "i' < length xs" "P (xs ! i')" "\<forall>j<i'. \<not> P (xs ! j)"
      by auto
    ultimately show ?thesis
      using Cons.IH [of i' "Suc k"] Suc by simp
  qed
qed

text \<open>A candidate whose pattern is valid, whose query is answered, and that matches no
  authorized visitor: the loop goes on to the next candidate.\<close>

lemma findOne_miss:
  assumes "RegExp_i en nm = Some m" and "\<not> findOne_fails en nm"
    and "\<forall>v\<in>set (visitors w). \<not> (m (name v) \<and> isAuthorized v)"
  shows "findOne en w nm = (Inr None, add_calls [FindOne nm] w)"
  using assms by (simp add: findOne_def first_from_None record_call_def add_calls_def)

lemma findOne_hit:
  assumes "RegExp_i en nm = Some m" and "\<not> findOne_fails en nm"
    and "i < length (visitors w)"
    and "m (name (visitors w ! i))" and "isAuthorized (visitors w ! i)"
    and "\<forall>j<i. \<not> (m (name (visitors w ! j)) \<and> isAuthorized (visitors w ! j))"
  shows "findOne en w nm = (Inr (Some (i, visitors w ! i)), add_calls [FindOne nm] w)"
proof -
  have "first_from 0 (\<lambda>v. m (name v) \<and> isAuthorized v) (visitors w)
          = Some (0 + i, visitors w ! i)"
    using assms(3-6) by (intro first_from_Some) auto
  with assms(1,2) show ?thesis
    by (simp add: findOne_def record_call_def add_calls_def)
qed

lemma add_calls_fields [simp]:
  "visitors (add_calls cs w) = visitors w"
  "doorbell_events (add_calls cs w) = doorbell_events w"
  "recognition_results (add_calls cs w) = recognition_results w"
  "delivered (add_calls cs w) = delivered w"
  "calls (add_calls cs w) = calls w @ cs"
  by (simp_all add: add_calls_def)

lemma add_calls_add_calls [simp]: "add_calls cs' (add_calls cs w) = add_calls (cs @ cs') w"
  by (simp add: add_calls_def)

lemma lookup_names_misses:
  assumes "\<forall>p\<in>set pre. \<exists>m. RegExp_i en p = Some m \<and> \<not> findOne_fails en p \<and>
             (\<forall>v\<in>set (visitors w). \<not> (m (name v) \<and> isAuthorized v))"
  shows "lookup_names en w ns (pre @ rest)
           = lookup_names en (add_calls (map FindOne pre) w) ns rest"
  using assms
proof (induction pre arbitrary: w)
  case Nil
  then show ?case by (simp add: add_calls_def)
next
  case (Cons p pre)
  from Cons.prems obtain m where m: "RegExp_i en p = Some m" "\<not> findOne_fails en p"
      "\<forall>v\<in>set (visitors w). \<not> (m (name v) \<and> isAuthorized v)"
    by auto
  have f: "findOne en w p = (Inr None, add_calls [FindOne p] w)"
    using m by (rule findOne_miss)
  have "lookup_names en (add_calls [FindOne p] w) ns (pre @ rest)
          = lookup_names en (add_calls (map FindOne pre) (add_calls [FindOne p] w)) ns rest"
    using Cons.prems by (intro Cons.IH) simp
  with f show ?case by simp
qed

lemma ulp_exp_small: "m < 9007199254740992 \<Longrightarrow> ulp_exp m = 0"
  by simp

lemma ulp_exp_two53: "ulp_exp 9007199254740992 = Suc 0"
  by simp

lemma nearest_double_exact: "m \<le> 9007199254740992 \<Longrightarrow> nearest_double m = m"
proof (cases "m = 9007199254740992")
  case True
  then show ?thesis by (simp add: nearest_double_def ulp_exp_two53 del: ulp_exp.simps)
next
  case False
  assume "m \<le> 9007199254740992"
  with False have "m < 9007199254740992" by simp
  then show ?thesis by (simp add: nearest_double_def ulp_exp_small del: ulp_exp.simps)
qed

text \<open>Below \<open>2^53\<close> in magnitude, adding 1 to a count is exact.\<close>

lemma Number_plus_exact:
  assumes "\<bar>x\<bar> < 9007199254740992"
  shows "Number_plus x 1 = x + 1"
proof (cases "0 \<le> x + 1")
  case True
  with assms have "nat (x + 1) \<le> 9007199254740992" by simp
  then have "nearest_double (nat (x + 1)) = nat (x + 1)" by (rule nearest_double_exact)
  with True show ?thesis by (simp add: Number_plus_def)
next
  case False
  with assms have "nat (- (x + 1)) \<le> 9007199254740992" by simp
  then have "nearest_double (nat (- (x + 1))) = nat (- (x + 1))" by (rule nearest_double_exact)
  with False show ?thesis by (simp add: Number_plus_def)
qed

text \<open>At \<open>2^53\<close> it is not: the sum is a tie and goes back to \<open>2^53\<close>.\<close>

lemma Number_plus_two53: "Number_plus 9007199254740992 1 = 9007199254740992"
  by (simp add: Number_plus_def nearest_double_def)

lemma lookup_names_hit:
  assumes "RegExp_i en c = Some m" and "\<not> findOne_fails en c"
    and "i < length (visitors w)"
    and "m (name (visitors w ! i))" and "isAuthorized (visitors w ! i)"
    and "\<forall>j<i. \<not> (m (name (visitors w ! j)) \<and> isAuthorized (visitors w ! j))"
    and "\<not> save_fails en"
  shows "lookup_names en w ns (c # post) =
           (Inr \<lparr>isAuthorized_v = True, visitorName = Some (name (visitors w ! i))\<rparr>,
            (add_calls [FindOne c, Save i] w)
              \<lparr>visitors := (visitors w)[i := (visitors w ! i)
                   \<lparr>visitCount := Number_plus (visitCount (visitors w ! i)) 1,
                    lastVisit := Some (visit_clock en)\<rparr>]\<rparr>)"
  using findOne_hit [OF assms(1-6)] assms(7)
  by (simp add: Let_def record_call_def add_calls_def)

lemma lookup_names_raises:
  assumes "RegExp_i en c = None \<or> findOne_fails en c"
  shows "\<exists>e w'. lookup_names en w ns (c # post) = (Inl e, w') \<and> visitors w' = visitors w \<and>
           (\<exists>cs. calls w' = calls w @ cs \<and> list_all store_call cs)"
  using assms
  by (cases "RegExp_i en c") (auto simp: findOne_def record_call_def)

text \<open>The answer of validateVisitor when the body of its \<open>try\<close> throws.\<close>

lemma validateVisitor_caught:
  assumes "success r" and "authenticated r" and "recognized_names r = Some (n # ns)"
    and "lookup_names en w (n # ns) (n # ns) = (Inl e, w1)"
  shows "validateVisitor en w r =
           (\<lparr>isAuthorized_v = False, visitorName = Some (if n = [] then ''unknown'' else n)\<rparr>, w1)"
  using assms by (simp add: validateVisitor_def or_default_def)

lemma validateVisitor_answered:
  assumes "success r" and "authenticated r" and "recognized_names r = Some (n # ns)"
    and "lookup_names en w (n # ns) (n # ns) = (Inr v, w1)"
  shows "validateVisitor en w r = (v, w1)"
  using assms by (simp add: validateVisitor_def)

subsection \<open>Authorized visitors\<close>

text \<open>
  C1, for the candidates up to the first match being patterns the engine accepts and for
  a count below \<open>2^53\<close>. The recognition stage answers with \<open>success\<close>,
  \<open>authenticated\<close> and the candidates \<open>pre @ c # post\<close>, where \<open>c\<close> is the first
  candidate that matches an authorized visitor: every candidate of \<open>pre\<close> is a valid
  pattern, is looked up and matches none, and the lookup of \<open>c\<close> finds the document
  \<open>v\<close> at position \<open>i\<close>, the first authorized one its pattern matches. Then the loop
  stops there (the queries of the run are those for \<open>pre\<close> and \<open>c\<close>, none for
  \<open>post\<close>), the collection changes at \<open>i\<close> only, where \<open>visitCount\<close> is one more
  and \<open>lastVisit\<close> is the time of the visit, and the written result is recognized and
  authorized under the stored name of \<open>v\<close>, not the candidate. The stored name is not
  empty, as the schema requires; the lookups and the save are answered and the write of
  the result is accepted.
\<close>

theorem first_authorized_match_wins:
  assumes ts: "actualTimestamp en ev = Inr ts"
    and img: "processedImage en ev = (Returned img, cs)"
    and rec: "callFacialRecognition en img = (Returned r, cs')"
    and ok: "success r" "authenticated r"
    and names: "recognized_names r = Some (pre @ c # post)"
    and pre: "\<forall>p\<in>set pre. \<exists>m. RegExp_i en p = Some m \<and> \<not> findOne_fails en p \<and>
                (\<forall>v\<in>set (visitors w). \<not> (m (name v) \<and> isAuthorized v))"
    and hit: "RegExp_i en c = Some m" "\<not> findOne_fails en c"
      "i < length (visitors w)" "visitors w ! i = v" "m (name v)" "isAuthorized v"
      "\<forall>j<i. \<not> (m (name (visitors w ! j)) \<and> isAuthorized (visitors w ! j))"
    and schema: "name v \<noteq> []"
    and count: "\<bar>visitCount v\<bar> < 9007199254740992"
    and store: "\<not> save_fails en"
    and sink: "\<not> set_fails en"
  shows "\<exists>w' res. processDoorbellEvent en w eventId ev = (Returned (), w') \<and>
           visitors w' = (visitors w)
             [i := v\<lparr>visitCount := visitCount v + 1, lastVisit := Some (visit_clock en)\<rparr>] \<and>
           calls w' = calls w @ cs @ cs' @ map FindOne pre @
             [FindOne c, Save i, SetResult eventId res, Send (notification eventId res)] \<and>
           recognition_results w' = (recognition_results w)(eventId \<mapsto> res) \<and>
           recognized res \<and> authorized res \<and> name_r res = name v"
proof -
  let ?w2 = "add_calls (cs @ cs') w"
  let ?ns = "pre @ c # post"
  let ?v' = "v\<lparr>visitCount := visitCount v + 1, lastVisit := Some (visit_clock en)\<rparr>"
  let ?w3 = "(add_calls [FindOne c, Save i] (add_calls (map FindOne pre) ?w2))
               \<lparr>visitors := (visitors w)[i := ?v']\<rparr>"
  let ?val = "\<lparr>isAuthorized_v = True, visitorName = Some (name v)\<rparr>"
  have pre2: "\<forall>p\<in>set pre. \<exists>m. RegExp_i en p = Some m \<and> \<not> findOne_fails en p \<and>
                (\<forall>v\<in>set (visitors ?w2). \<not> (m (name v) \<and> isAuthorized v))"
    using pre by simp
  have "lookup_names en ?w2 ?ns ?ns
          = lookup_names en (add_calls (map FindOne pre) ?w2) ?ns (c # post)"
    using pre2 by (rule lookup_names_misses)
  also have "\<dots> = (Inr ?val, ?w3)"
    using lookup_names_hit [of en c m i "add_calls (map FindOne pre) ?w2" ?ns post] hit store
      Number_plus_exact [OF count]
    by simp
  finally have look: "lookup_names en ?w2 ?ns ?ns = (Inr ?val, ?w3)" .
  obtain n ns where split: "?ns = n # ns" by (cases pre) auto
  have val: "validateVisitor en ?w2 r = (?val, ?w3)"
    using validateVisitor_answered [of r n ns en ?w2 ?val ?w3] ok names look split by simp
  let ?res = "finalResult en eventId ev ts img r ?val"
  have run: "processDoorbellEvent en w eventId ev =
      (Returned (),
       sendPushNotification en
         (record_call (SetResult eventId ?res) ?w3
            \<lparr>recognition_results := (recognition_results ?w3)(eventId \<mapsto> ?res)\<rparr>)
         eventId ?res)"
    using ts img rec val sink by (rule processDoorbellEvent_written)
  have fields: "recognized ?res \<and> authorized ?res \<and> name_r ?res = name v"
    using ok schema by (simp add: finalResult_def or_default_def)
  show ?thesis
    using fields
    by (simp add: run sendPushNotification_frame record_call_def add_calls_def)
qed

lemma world0_visitors: "visitors world0 = [bob, ali, sammad]"
  by (simp add: world0_def)

lemma engine_examples:
  "RegExp_fragment ''Stranger'' ''i'' = Some (search True (map (\<lambda>c. One (Lit c)) ''Stranger''))"
  "RegExp_fragment ''ali'' ''i'' = Some (search True (map (\<lambda>c. One (Lit c)) ''ali''))"
  "RegExp_fragment ''.'' ''i'' = Some (search True [One AnyChar])"
  "RegExp_fragment ''bo'' ''i'' = Some (search True (map (\<lambda>c. One (Lit c)) ''bo''))"
  "RegExp_fragment ''('' ''i'' = None"
  "RegExp_fragment [] ''i'' = Some (search True [])"
  by (simp_all add: RegExp_fragment_def other_syntax_chars_def)

lemma search_examples:
  "\<not> search True (map (\<lambda>c. One (Lit c)) ''Stranger'') ''Ali Hassan''"
  "\<not> search True (map (\<lambda>c. One (Lit c)) ''Stranger'') ''Abdul Sammad''"
  "search True (map (\<lambda>c. One (Lit c)) ''ali'') ''Ali Hassan''"
  "search True [One AnyChar] ''Ali Hassan''"
  "\<not> search True (map (\<lambda>c. One (Lit c)) ''bo'') ''Ali Hassan''"
  "\<not> search True (map (\<lambda>c. One (Lit c)) ''bo'') ''Abdul Sammad''"
  by (simp_all add: lower_def)

theorem first_authorized_match_wins_witness:
  "\<exists>w' res. processDoorbellEvent env0 world0 ''e1'' (inline_event ''QUxJ'') = (Returned (), w') \<and>
     visitors w' = [bob, ali\<lparr>visitCount := 5, lastVisit := Some 1700000000000\<rparr>, sammad] \<and>
     calls w' = [Recognize ''QUxJ'', FindOne ''Stranger'', FindOne ''ali'', Save 1,
                 SetResult ''e1'' res, Send (notification ''e1'' res)] \<and>
     recognition_results w' ''e1'' = Some res \<and>
     recognized res \<and> authorized res \<and> name_r res = ''Ali Hassan''"
proof -
  let ?m = "search True (map (\<lambda>c. One (Lit c)) ''ali'')"
  have ok: "success (answer True ''Authenticated as ali'' [''Stranger'', ''ali'', ''Abdul''])"
    "authenticated (answer True ''Authenticated as ali'' [''Stranger'', ''ali'', ''Abdul''])"
    by (simp_all add: answer_def)
  have names: "recognized_names (answer True ''Authenticated as ali'' [''Stranger'', ''ali'', ''Abdul''])
      = Some ([''Stranger''] @ ''ali'' # [''Abdul''])"
    by (simp add: answer_def)
  have pre: "\<forall>p\<in>set [''Stranger'']. \<exists>m. RegExp_i env0 p = Some m \<and> \<not> findOne_fails env0 p \<and>
      (\<forall>v\<in>set (visitors world0). \<not> (m (name v) \<and> isAuthorized v))"
    using search_examples
    by (simp add: env0_def RegExp_i_def engine_examples world0_visitors bob_def ali_def sammad_def)
  have hit: "RegExp_i env0 ''ali'' = Some ?m" "\<not> findOne_fails env0 ''ali''"
    "1 < length (visitors world0)" "visitors world0 ! 1 = ali" "?m (name ali)" "isAuthorized ali"
    "\<forall>j<1. \<not> (?m (name (visitors world0 ! j)) \<and> isAuthorized (visitors world0 ! j))"
    using search_examples
    by (simp_all add: env0_def RegExp_i_def engine_examples world0_visitors bob_def ali_def)
  have rest: "name ali \<noteq> []" "\<bar>visitCount ali\<bar> < 9007199254740992"
    "\<not> save_fails env0" "\<not> set_fails env0"
    by (simp_all add: ali_def env0_def)
  have w: "calls world0 = []" by (simp add: world0_def)
  have upd: "ali\<lparr>visitCount := visitCount ali + 1, lastVisit := Some (visit_clock env0)\<rparr>
      = ali\<lparr>visitCount := 5, lastVisit := Some 1700000000000\<rparr>"
    by (simp add: ali_def env0_def)
  show ?thesis
    using first_authorized_match_wins
      [where w = world0 and eventId = "''e1''",
       OF inline_event_stages(1) inline_event_stages(2) api0_answers(4) ok names pre hit rest]
    by (simp add: w upd world0_visitors) (auto simp: ali_def)
qed

text \<open>
  C1 as it was worded, for every list that contains a matching name and for every count,
  fails twice. With the candidates \<open>(\<close> and \<open>ali\<close>, the second matches the authorized
  Ali Hassan, but \<open>new RegExp\<close> throws on the first inside the \<open>try\<close>: the result is
  not authorized, under the name \<open>(\<close>, and no count changes. And when the count of the
  visitor found is \<open>2^53\<close>, the sum is not one more: the count stays where it is.
\<close>

theorem first_match_behind_invalid_pattern:
  "callFacialRecognition env0 (Some ''UEFSMg=='')
     = (Returned (answer True ''Authenticated'' [''('', ''ali'']), [Recognize ''UEFSMg=='']) \<and>
   RegExp_i env0 ''ali''
     = Some (search True [One (Lit CHR ''a''), One (Lit CHR ''l''), One (Lit CHR ''i'')]) \<and>
   search True [One (Lit CHR ''a''), One (Lit CHR ''l''), One (Lit CHR ''i'')] (name ali) \<and>
   isAuthorized ali \<and> visitors world0 ! 1 = ali \<and>
   fst (processDoorbellEvent env0 world0 ''e1'' (inline_event ''UEFSMg=='')) = Returned () \<and>
   map_option authorized
     (recognition_results (snd (processDoorbellEvent env0 world0 ''e1'' (inline_event ''UEFSMg=='')))
        ''e1'') = Some False \<and>
   map_option name_r
     (recognition_results (snd (processDoorbellEvent env0 world0 ''e1'' (inline_event ''UEFSMg=='')))
        ''e1'') = Some ''('' \<and>
   visitors (snd (processDoorbellEvent env0 world0 ''e1'' (inline_event ''UEFSMg==''))) = visitors world0 \<and>
   visitCount (visitors world_max ! 1) = 9007199254740992 \<and>
   fst (processDoorbellEvent env0 world_max ''e2'' (inline_event ''QUxJ'')) = Returned () \<and>
   map_option authorized
     (recognition_results (snd (processDoorbellEvent env0 world_max ''e2'' (inline_event ''QUxJ'')))
        ''e2'') = Some True \<and>
   visitCount (visitors (snd (processDoorbellEvent env0 world_max ''e2'' (inline_event ''QUxJ''))) ! 1)
     = 9007199254740992"
proof -
  have rec: "callFacialRecognition env0 (Some ''UEFSMg=='')
      = (Returned (answer True ''Authenticated'' [''('', ''ali'']), [Recognize ''UEFSMg==''])"
    by (simp add: callFacialRecognition_def env0_def api0_def)
  have pat: "RegExp_i env0 ''ali''
      = Some (search True [One (Lit CHR ''a''), One (Lit CHR ''l''), One (Lit CHR ''i'')])"
    "RegExp_i env0 ''('' = None"
    "RegExp_i env0 ''Stranger'' = Some (search True (map (\<lambda>c. One (Lit c)) ''Stranger''))"
    using engine_examples by (simp_all add: RegExp_i_def env0_def)
  have m: "search True [One (Lit CHR ''a''), One (Lit CHR ''l''), One (Lit CHR ''i'')] (name ali)"
    "isAuthorized ali" "visitors world0 ! 1 = ali"
    using search_examples by (simp_all add: ali_def world0_visitors)
  have sink: "\<not> set_fails env0" "\<not> findOne_fails env0 ''ali''" "\<not> findOne_fails env0 ''Stranger''"
    "\<not> save_fails env0"
    by (simp_all add: env0_def)
  let ?r1 = "answer True ''Authenticated'' [''('', ''ali'']"
  let ?w1 = "add_calls ([] @ [Recognize ''UEFSMg=='']) world0"
  have "lookup_names env0 ?w1 [''('', ''ali''] [''('', ''ali''] = (Inl SyntaxError, ?w1)"
    using pat(2) by (simp add: findOne_def)
  then have val1: "validateVisitor env0 ?w1 ?r1
      = (\<lparr>isAuthorized_v = False, visitorName = Some ''(''\<rparr>, ?w1)"
    by (simp add: validateVisitor_def answer_def or_default_def)
  note run1 = processDoorbellEvent_written
    [where eventId = "''e1''", OF inline_event_stages(1) inline_event_stages(2) rec val1 sink(1)]
  have one: "fst (processDoorbellEvent env0 world0 ''e1'' (inline_event ''UEFSMg=='')) = Returned () \<and>
     map_option authorized
       (recognition_results (snd (processDoorbellEvent env0 world0 ''e1'' (inline_event ''UEFSMg=='')))
          ''e1'') = Some False \<and>
     map_option name_r
       (recognition_results (snd (processDoorbellEvent env0 world0 ''e1'' (inline_event ''UEFSMg=='')))
          ''e1'') = Some ''('' \<and>
     visitors (snd (processDoorbellEvent env0 world0 ''e1'' (inline_event ''UEFSMg==''))) = visitors world0"
    by (simp add: run1 sendPushNotification_frame record_call_def finalResult_def or_default_def)
  let ?r2 = "answer True ''Authenticated as ali'' [''Stranger'', ''ali'', ''Abdul'']"
  let ?ns = "[''Stranger''] @ ''ali'' # [''Abdul'']"
  let ?w2 = "add_calls ([] @ [Recognize ''QUxJ'']) world_max"
  let ?old = "ali\<lparr>visitCount := 9007199254740992\<rparr>"
  have vs: "visitors world_max = [bob, ?old, sammad]"
    by (simp add: world_max_def world0_def)
  have miss: "\<forall>p\<in>set [''Stranger'']. \<exists>m. RegExp_i env0 p = Some m \<and> \<not> findOne_fails env0 p \<and>
      (\<forall>v\<in>set (visitors ?w2). \<not> (m (name v) \<and> isAuthorized v))"
    using pat(3) sink(3) by (simp add: vs bob_def ali_def sammad_def lower_def)
  have hit: "1 < length (visitors (add_calls (map FindOne [''Stranger'']) ?w2))"
    "search True [One (Lit CHR ''a''), One (Lit CHR ''l''), One (Lit CHR ''i'')]
       (name (visitors (add_calls (map FindOne [''Stranger'']) ?w2) ! 1))"
    "isAuthorized (visitors (add_calls (map FindOne [''Stranger'']) ?w2) ! 1)"
    "\<forall>j<1. \<not> (search True [One (Lit CHR ''a''), One (Lit CHR ''l''), One (Lit CHR ''i'')]
                  (name (visitors (add_calls (map FindOne [''Stranger'']) ?w2) ! j)) \<and>
                isAuthorized (visitors (add_calls (map FindOne [''Stranger'']) ?w2) ! j))"
    by (simp_all add: vs ali_def bob_def lower_def)
  have look: "lookup_names env0 ?w2 ?ns ?ns
      = (Inr \<lparr>isAuthorized_v = True, visitorName = Some ''Ali Hassan''\<rparr>,
         (add_calls [FindOne ''ali'', Save 1] (add_calls (map FindOne [''Stranger'']) ?w2))
           \<lparr>visitors := [bob, ?old\<lparr>visitCount := 9007199254740992,
                                     lastVisit := Some (visit_clock env0)\<rparr>, sammad]\<rparr>)"
    using lookup_names_misses [OF miss, of ?ns "''ali'' # [''Abdul'']"]
      lookup_names_hit [OF pat(1) sink(2) hit sink(4), of ?ns "[''Abdul'']"]
    by (simp add: vs Number_plus_two53 ali_def)
  have val2: "validateVisitor env0 ?w2 ?r2
      = (\<lparr>isAuthorized_v = True, visitorName = Some ''Ali Hassan''\<rparr>,
         (add_calls [FindOne ''ali'', Save 1] (add_calls (map FindOne [''Stranger'']) ?w2))
           \<lparr>visitors := [bob, ?old\<lparr>visitCount := 9007199254740992,
                                     lastVisit := Some (visit_clock env0)\<rparr>, sammad]\<rparr>)"
    using look by (simp add: validateVisitor_def answer_def)
  note run2 = processDoorbellEvent_written
    [where eventId = "''e2''", OF inline_event_stages(1) inline_event_stages(2) api0_answers(4) val2 sink(1)]
  have two: "visitCount (visitors world_max ! 1) = 9007199254740992 \<and>
     fst (processDoorbellEvent env0 world_max ''e2'' (inline_event ''QUxJ'')) = Returned () \<and>
     map_option authorized
       (recognition_results (snd (processDoorbellEvent env0 world_max ''e2'' (inline_event ''QUxJ'')))
          ''e2'') = Some True \<and>
     visitCount (visitors (snd (processDoorbellEvent env0 world_max ''e2'' (inline_event ''QUxJ''))) ! 1)
       = 9007199254740992"
    by (simp add: run2 sendPushNotification_frame record_call_def finalResult_def or_default_def
          vs answer_def)
  show ?thesis
    using rec pat(1) m one two by simp
qed

subsection \<open>Faults of the visitors collection\<close>

lemma first_from_found:
  "P (xs ! i) \<Longrightarrow> i < length xs \<Longrightarrow> \<exists>j x. first_from k P xs = Some (j, x)"
  using first_from_None [of k P xs] by (cases "first_from k P xs") auto

lemma lookup_names_save_fails:
  assumes "RegExp_i en c = Some m" and "\<not> findOne_fails en c"
    and "i < length (visitors w)"
    and "m (name (visitors w ! i))" and "isAuthorized (visitors w ! i)"
    and "save_fails en"
  shows "\<exists>e w'. lookup_names en w ns (c # post) = (Inl e, w') \<and> visitors w' = visitors w \<and>
           (\<exists>cs. calls w' = calls w @ cs \<and> list_all store_call cs)"
proof -
  obtain j x where "first_from 0 (\<lambda>v. m (name v) \<and> isAuthorized v) (visitors w) = Some (j, x)"
    using first_from_found [of "\<lambda>v. m (name v) \<and> isAuthorized v" "visitors w" i 0] assms(3-5)
    by auto
  with assms(1,2,6) show ?thesis
    by (simp add: findOne_def Let_def record_call_def)
qed

text \<open>
  C7, with the guard of the code. The candidates are \<open>pre @ c # post\<close>; those of \<open>pre\<close> are
  looked up and match no authorized visitor, and at \<open>c\<close> the collection raises: its
  query is rejected, or it finds an authorized visitor and the save is rejected. Then the
  run does not throw: the collection is unchanged, the result is written and the
  notification sent after it, the result is not authorized, and its name is the first
  candidate, or \<open>unknown\<close> when the first candidate is the empty string
  (\<open>recognizedNames[0] || 'unknown'\<close>).
\<close>

theorem store_fault_falls_back:
  assumes ts: "actualTimestamp en ev = Inr ts"
    and img: "processedImage en ev = (Returned img, cs)"
    and rec: "callFacialRecognition en img = (Returned r, cs')"
    and ok: "success r" "authenticated r"
    and names: "recognized_names r = Some (pre @ c # post)"
    and pre: "\<forall>p\<in>set pre. \<exists>m. RegExp_i en p = Some m \<and> \<not> findOne_fails en p \<and>
                (\<forall>v\<in>set (visitors w). \<not> (m (name v) \<and> isAuthorized v))"
    and valid: "RegExp_i en c = Some m"
    and fault: "findOne_fails en c \<or>
                (\<exists>i. i < length (visitors w) \<and> m (name (visitors w ! i)) \<and>
                     isAuthorized (visitors w ! i) \<and> save_fails en)"
    and sink: "\<not> set_fails en"
  shows "\<exists>w' res cs''. processDoorbellEvent en w eventId ev = (Returned (), w') \<and>
           visitors w' = visitors w \<and>
           calls w' = calls w @ cs @ cs' @ cs'' @
             [SetResult eventId res, Send (notification eventId res)] \<and>
           list_all store_call cs'' \<and>
           recognition_results w' = (recognition_results w)(eventId \<mapsto> res) \<and>
           recognized res \<and> \<not> authorized res \<and>
           name_r res = (if hd (pre @ c # post) = [] then ''unknown'' else hd (pre @ c # post))"
proof -
  let ?w2 = "add_calls (cs @ cs') w"
  let ?wp = "add_calls (map FindOne pre) ?w2"
  let ?ns = "pre @ c # post"
  have pre2: "\<forall>p\<in>set pre. \<exists>m. RegExp_i en p = Some m \<and> \<not> findOne_fails en p \<and>
                (\<forall>v\<in>set (visitors ?w2). \<not> (m (name v) \<and> isAuthorized v))"
    using pre by simp
  have step: "lookup_names en ?w2 ?ns ?ns = lookup_names en ?wp ?ns (c # post)"
    using pre2 by (rule lookup_names_misses)
  have "\<exists>e w1. lookup_names en ?wp ?ns (c # post) = (Inl e, w1) \<and> visitors w1 = visitors ?wp \<and>
           (\<exists>cs3. calls w1 = calls ?wp @ cs3 \<and> list_all store_call cs3)"
  proof (cases "findOne_fails en c")
    case True
    then show ?thesis using lookup_names_raises [of en c ?wp ?ns post] by blast
  next
    case False
    with fault obtain i where "i < length (visitors ?wp)" "m (name (visitors ?wp ! i))"
      "isAuthorized (visitors ?wp ! i)" "save_fails en"
      by auto
    with valid False show ?thesis
      using lookup_names_save_fails [of en c m i ?wp ?ns post] by blast
  qed
  then obtain e w1 cs3 where look: "lookup_names en ?wp ?ns (c # post) = (Inl e, w1)"
    and w1: "visitors w1 = visitors w" "calls w1 = calls w @ cs @ cs' @ map FindOne pre @ cs3"
      "list_all store_call cs3"
    by auto
  have rest: "doorbell_events w1 = doorbell_events ?wp"
    "recognition_results w1 = recognition_results ?wp" "delivered w1 = delivered ?wp"
    using lookup_names_frame [OF look] by simp_all
  obtain n ns where split: "?ns = n # ns" by (cases pre) auto
  let ?val = "\<lparr>isAuthorized_v = False, visitorName = Some (if n = [] then ''unknown'' else n)\<rparr>"
  have val: "validateVisitor en ?w2 r = (?val, w1)"
    using validateVisitor_caught [of r n ns en ?w2 e w1] ok names look step split by simp
  let ?res = "finalResult en eventId ev ts img r ?val"
  have run: "processDoorbellEvent en w eventId ev =
      (Returned (),
       sendPushNotification en
         (record_call (SetResult eventId ?res) w1
            \<lparr>recognition_results := (recognition_results w1)(eventId \<mapsto> ?res)\<rparr>)
         eventId ?res)"
    using ts img rec val sink by (rule processDoorbellEvent_written)
  have fields: "recognized ?res \<and> \<not> authorized ?res \<and>
      name_r ?res = (if hd ?ns = [] then ''unknown'' else hd ?ns)"
    using ok split by (simp add: finalResult_def or_default_def)
  have stores: "list_all store_call (map FindOne pre @ cs3)"
    using w1(3) by (auto simp: list_all_iff)
  have "processDoorbellEvent en w eventId ev = (Returned (), snd (processDoorbellEvent en w eventId ev)) \<and>
      visitors (snd (processDoorbellEvent en w eventId ev)) = visitors w \<and>
      calls (snd (processDoorbellEvent en w eventId ev)) = calls w @ cs @ cs' @ (map FindOne pre @ cs3) @
        [SetResult eventId ?res, Send (notification eventId ?res)] \<and>
      list_all store_call (map FindOne pre @ cs3) \<and>
      recognition_results (snd (processDoorbellEvent en w eventId ev))
        = (recognition_results w)(eventId \<mapsto> ?res) \<and>
      recognized ?res \<and> \<not> authorized ?res \<and>
      name_r ?res = (if hd ?ns = [] then ''unknown'' else hd ?ns)"
    using fields stores w1 rest
    by (simp add: run sendPushNotification_frame record_call_def)
  then show ?thesis by blast
qed

lemma down_answers:
  "callFacialRecognition store_down (Some ''QUxJ'')
     = (Returned (answer True ''Authenticated as ali'' [''Stranger'', ''ali'', ''Abdul'']),
        [Recognize ''QUxJ''])"
  "callFacialRecognition save_down (Some ''QUxJ'')
     = (Returned (answer True ''Authenticated as ali'' [''Stranger'', ''ali'', ''Abdul'']),
        [Recognize ''QUxJ''])"
  "callFacialRecognition store_down (Some ''RU1Q'')
     = (Returned (answer True ''Authenticated'' [[], ''ali'']), [Recognize ''RU1Q''])"
  by (simp_all add: callFacialRecognition_def store_down_def save_down_def env0_def api0_def)

theorem store_fault_falls_back_witness:
  "findOne_fails store_down ''Stranger'' \<and>
   (\<exists>w' res. processDoorbellEvent store_down world0 ''e1'' (inline_event ''QUxJ'')
                 = (Returned (), w') \<and>
      visitors w' = [bob, ali, sammad] \<and>
      recognition_results w' ''e1'' = Some res \<and>
      last (calls w') = Send (notification ''e1'' res) \<and>
      recognized res \<and> \<not> authorized res \<and> name_r res = ''Stranger'') \<and>
   save_fails save_down \<and>
   (\<exists>w' res. processDoorbellEvent save_down world0 ''e2'' (inline_event ''QUxJ'')
                 = (Returned (), w') \<and>
      visitors w' = [bob, ali, sammad] \<and>
      recognition_results w' ''e2'' = Some res \<and>
      last (calls w') = Send (notification ''e2'' res) \<and>
      recognized res \<and> \<not> authorized res \<and> name_r res = ''Stranger'')"
proof -
  let ?r = "answer True ''Authenticated as ali'' [''Stranger'', ''ali'', ''Abdul'']"
  let ?m = "search True (map (\<lambda>c. One (Lit c)) ''ali'')"
  have ok: "success ?r" "authenticated ?r" by (simp_all add: answer_def)
  have names1: "recognized_names ?r = Some ([] @ ''Stranger'' # [''ali'', ''Abdul''])"
    by (simp add: answer_def)
  have names2: "recognized_names ?r = Some ([''Stranger''] @ ''ali'' # [''Abdul''])"
    by (simp add: answer_def)
  have pre1: "\<forall>p\<in>set []. \<exists>m. RegExp_i store_down p = Some m \<and> \<not> findOne_fails store_down p \<and>
      (\<forall>v\<in>set (visitors world0). \<not> (m (name v) \<and> isAuthorized v))"
    by simp
  have valid1: "RegExp_i store_down ''Stranger''
      = Some (search True (map (\<lambda>c. One (Lit c)) ''Stranger''))"
    by (simp add: store_down_def env0_def RegExp_i_def engine_examples)
  have down: "findOne_fails store_down ''Stranger''" by (simp add: store_down_def)
  have fault1: "findOne_fails store_down ''Stranger'' \<or>
      (\<exists>i. i < length (visitors world0) \<and>
           search True (map (\<lambda>c. One (Lit c)) ''Stranger'') (name (visitors world0 ! i)) \<and>
           isAuthorized (visitors world0 ! i) \<and> save_fails store_down)"
    using down by simp
  have sink1: "\<not> set_fails store_down" by (simp add: store_down_def env0_def)
  have pre2: "\<forall>p\<in>set [''Stranger'']. \<exists>m. RegExp_i save_down p = Some m \<and>
      \<not> findOne_fails save_down p \<and>
      (\<forall>v\<in>set (visitors world0). \<not> (m (name v) \<and> isAuthorized v))"
    using search_examples
    by (simp add: save_down_def env0_def RegExp_i_def engine_examples world0_visitors bob_def ali_def sammad_def)
  have valid2: "RegExp_i save_down ''ali'' = Some ?m"
    by (simp add: save_down_def env0_def RegExp_i_def engine_examples)
  have sdown: "save_fails save_down" by (simp add: save_down_def)
  have "1 < length (visitors world0) \<and> ?m (name (visitors world0 ! 1)) \<and>
      isAuthorized (visitors world0 ! 1) \<and> save_fails save_down"
    using search_examples sdown by (simp add: world0_visitors ali_def)
  then have fault2: "findOne_fails save_down ''ali'' \<or>
      (\<exists>i. i < length (visitors world0) \<and> ?m (name (visitors world0 ! i)) \<and>
           isAuthorized (visitors world0 ! i) \<and> save_fails save_down)"
    by blast
  have sink2: "\<not> set_fails save_down" by (simp add: save_down_def env0_def)
  have 1: "\<exists>w' res. processDoorbellEvent store_down world0 ''e1'' (inline_event ''QUxJ'')
                 = (Returned (), w') \<and>
      visitors w' = [bob, ali, sammad] \<and>
      recognition_results w' ''e1'' = Some res \<and>
      last (calls w') = Send (notification ''e1'' res) \<and>
      recognized res \<and> \<not> authorized res \<and> name_r res = ''Stranger''"
    using store_fault_falls_back
      [where w = world0 and eventId = "''e1''",
       OF inline_event_stages(1) inline_event_stages(2) down_answers(1) ok names1 pre1 valid1
          fault1 sink1]
    by (auto simp: world0_visitors)
  have 2: "\<exists>w' res. processDoorbellEvent save_down world0 ''e2'' (inline_event ''QUxJ'')
                 = (Returned (), w') \<and>
      visitors w' = [bob, ali, sammad] \<and>
      recognition_results w' ''e2'' = Some res \<and>
      last (calls w') = Send (notification ''e2'' res) \<and>
      recognized res \<and> \<not> authorized res \<and> name_r res = ''Stranger''"
    using store_fault_falls_back
      [where w = world0 and eventId = "''e2''",
       OF inline_event_stages(1) inline_event_stages(2) down_answers(2) ok names2 pre2 valid2
          fault2 sink2]
    by (auto simp: world0_visitors)
  show ?thesis using 1 2 down sdown by simp
qed

text \<open>
  C7 without that guard (the name is always the first candidate) fails when the first
  candidate is the empty string: the recognition API names the candidates \<open>''''\<close> and
  \<open>ali\<close>, the collection rejects the query, and the written name is \<open>unknown\<close>,
  which is not the first candidate.
\<close>

theorem store_fault_empty_candidate:
  "callFacialRecognition store_down (Some ''RU1Q'')
     = (Returned (answer True ''Authenticated'' [[], ''ali'']), [Recognize ''RU1Q'']) \<and>
   recognized_names (answer True ''Authenticated'' [[], ''ali'']) = Some [[], ''ali''] \<and>
   findOne_fails store_down [] \<and>
   fst (lookup_names store_down world0 [[], ''ali''] [[], ''ali'']) = Inl MongoError \<and>
   fst (processDoorbellEvent store_down world0 ''e1'' (inline_event ''RU1Q'')) = Returned () \<and>
   map_option name_r
     (recognition_results (snd (processDoorbellEvent store_down world0 ''e1'' (inline_event ''RU1Q'')))
        ''e1'') = Some ''unknown'' \<and>
   ''unknown'' \<noteq> hd [[], ''ali'']"
proof -
  have a: "findOne_fails store_down []" "RegExp_i store_down [] = Some (search True [])"
    by (simp_all add: store_down_def env0_def RegExp_i_def engine_examples)
  have look: "\<And>w. lookup_names store_down w [[], ''ali''] [[], ''ali'']
      = (Inl MongoError, record_call (FindOne []) w)"
    using a by (simp add: findOne_def)
  have run: "processDoorbellEvent store_down world0 ''e1'' (inline_event ''RU1Q'')
      = (Returned (),
         sendPushNotification store_down
           (record_call
              (SetResult ''e1''
                 (finalResult store_down ''e1'' (inline_event ''RU1Q'') (JNum 1699999990000)
                    (Some ''RU1Q'') (answer True ''Authenticated'' [[], ''ali''])
                    \<lparr>isAuthorized_v = False, visitorName = Some ''unknown''\<rparr>))
              (record_call (FindOne []) (add_calls ([] @ [Recognize ''RU1Q'']) world0))
              \<lparr>recognition_results :=
                 (recognition_results
                    (record_call (FindOne []) (add_calls ([] @ [Recognize ''RU1Q'']) world0)))
                 (''e1'' \<mapsto>
                    finalResult store_down ''e1'' (inline_event ''RU1Q'') (JNum 1699999990000)
                      (Some ''RU1Q'') (answer True ''Authenticated'' [[], ''ali''])
                      \<lparr>isAuthorized_v = False, visitorName = Some ''unknown''\<rparr>)\<rparr>)
           ''e1''
           (finalResult store_down ''e1'' (inline_event ''RU1Q'') (JNum 1699999990000)
              (Some ''RU1Q'') (answer True ''Authenticated'' [[], ''ali''])
              \<lparr>isAuthorized_v = False, visitorName = Some ''unknown''\<rparr>))"
  proof (rule processDoorbellEvent_written)
    show "actualTimestamp store_down (inline_event ''RU1Q'') = Inr (JNum 1699999990000)"
      by (simp add: inline_event_stages)
    show "processedImage store_down (inline_event ''RU1Q'') = (Returned (Some ''RU1Q''), [])"
      by (simp add: inline_event_stages)
    show "callFacialRecognition store_down (Some ''RU1Q'')
        = (Returned (answer True ''Authenticated'' [[], ''ali'']), [Recognize ''RU1Q''])"
      by (rule down_answers)
    show "validateVisitor store_down (add_calls ([] @ [Recognize ''RU1Q'']) world0)
          (answer True ''Authenticated'' [[], ''ali''])
        = (\<lparr>isAuthorized_v = False, visitorName = Some ''unknown''\<rparr>,
           record_call (FindOne []) (add_calls ([] @ [Recognize ''RU1Q'']) world0))"
      using look by (simp add: validateVisitor_def answer_def or_default_def)
    show "\<not> set_fails store_down" by (simp add: store_down_def env0_def)
  qed
  show ?thesis
    using a look down_answers(3)
    by (simp add: run sendPushNotification_frame finalResult_def or_default_def answer_def)
qed

subsection \<open>Candidates are patterns\<close>

lemma findOne_only_flag_i:
  assumes "\<forall>p. rx p ''i'' = RegExp en p ''i''"
  shows "findOne (en\<lparr>RegExp := rx\<rparr>) w nm = findOne en w nm"
  using assms by (simp add: findOne_def RegExp_i_def split: option.splits)

lemma lookup_names_only_flag_i:
  assumes "\<forall>p. rx p ''i'' = RegExp en p ''i''"
  shows "lookup_names (en\<lparr>RegExp := rx\<rparr>) w ns rest = lookup_names en w ns rest"
  by (induction rest arbitrary: w)
     (simp_all add: findOne_only_flag_i [of rx en, OF assms]
        split: prod.splits sum.splits option.splits)

lemma validateVisitor_only_flag_i:
  assumes "\<forall>p. rx p ''i'' = RegExp en p ''i''"
  shows "validateVisitor (en\<lparr>RegExp := rx\<rparr>) w r = validateVisitor en w r"
  by (simp add: validateVisitor_def Let_def lookup_names_only_flag_i [of rx en, OF assms])

lemma api0_candidates_in_fragment:
  assumes "api0 img = Reply r" and "recognized_names r = Some ns" and "c \<in> set ns"
  shows "parse_pattern c \<noteq> Unsupported"
  using assms
  by (auto simp: api0_def answer_def other_syntax_chars_def split: if_splits)

text \<open>
  C9, with the guard of the code on the name. validateVisitor hands every candidate to
  \<open>new RegExp(name, 'i')\<close> and asks the collection for an authorized visitor whose name
  the pattern matches; the engine is consulted under the flag \<open>i\<close> and under no other,
  so the answer is the same for two engines that agree under \<open>i\<close>. For the first
  candidate \<open>c\<close> that is not a miss: when its pattern compiles under \<open>i\<close> and matches
  the stored name of the authorized visitor found, the answer is authorized under that
  stored name, whether or not the text of \<open>c\<close> occurs in it; and when \<open>c\<close> is not a
  valid pattern, no query is sent for it and the answer is the one the \<open>catch\<close> gives,
  the same as when the collection rejects every query: not authorized, under the first
  candidate, or under \<open>unknown\<close> when the first candidate is the empty string.
\<close>

theorem candidate_is_regex_pattern:
  assumes ok: "success r" "authenticated r"
    and names: "recognized_names r = Some (pre @ c # post)"
    and pre: "\<forall>p\<in>set pre. \<exists>m. RegExp_i en p = Some m \<and> \<not> findOne_fails en p \<and>
                (\<forall>v\<in>set (visitors w). \<not> (m (name v) \<and> isAuthorized v))"
  shows "(\<forall>m i. RegExp en c ''i'' = Some m \<and> \<not> findOne_fails en c \<and> \<not> save_fails en \<and>
            i < length (visitors w) \<and> m (name (visitors w ! i)) \<and>
            isAuthorized (visitors w ! i) \<and>
            (\<forall>j<i. \<not> (m (name (visitors w ! j)) \<and> isAuthorized (visitors w ! j))) \<longrightarrow>
            fst (validateVisitor en w r)
              = \<lparr>isAuthorized_v = True, visitorName = Some (name (visitors w ! i))\<rparr>) \<and>
         (RegExp en c ''i'' = None \<longrightarrow>
            validateVisitor en w r
              = (\<lparr>isAuthorized_v = False,
                  visitorName = Some (if hd (pre @ c # post) = [] then ''unknown''
                                      else hd (pre @ c # post))\<rparr>,
                 add_calls (map FindOne pre) w) \<and>
            fst (validateVisitor (en\<lparr>findOne_fails := \<lambda>nm. True\<rparr>) w r)
              = fst (validateVisitor en w r)) \<and>
         (\<forall>rx. (\<forall>p. rx p ''i'' = RegExp en p ''i'') \<longrightarrow>
            validateVisitor (en\<lparr>RegExp := rx\<rparr>) w r = validateVisitor en w r)"
proof (intro conjI allI impI)
  let ?ns = "pre @ c # post"
  let ?wp = "add_calls (map FindOne pre) w"
  obtain n ns where split: "?ns = n # ns" by (cases pre) auto
  have step: "lookup_names en w ?ns ?ns = lookup_names en ?wp ?ns (c # post)"
    using pre by (rule lookup_names_misses)
  {
    fix m i
    assume h: "RegExp en c ''i'' = Some m \<and> \<not> findOne_fails en c \<and> \<not> save_fails en \<and>
            i < length (visitors w) \<and> m (name (visitors w ! i)) \<and>
            isAuthorized (visitors w ! i) \<and>
            (\<forall>j<i. \<not> (m (name (visitors w ! j)) \<and> isAuthorized (visitors w ! j)))"
    then have c: "RegExp_i en c = Some m" by (simp add: RegExp_i_def)
    let ?val = "\<lparr>isAuthorized_v = True, visitorName = Some (name (visitors w ! i))\<rparr>"
    obtain w3 where "lookup_names en ?wp ?ns (c # post) = (Inr ?val, w3)"
      using lookup_names_hit [of en c m i ?wp ?ns post] h c by simp
    with step have "lookup_names en w ?ns ?ns = (Inr ?val, w3)" by simp
    then have "validateVisitor en w r = (?val, w3)"
      using validateVisitor_answered [of r n ns en w ?val w3] ok names split by simp
    then show "fst (validateVisitor en w r) = ?val" by simp
  }
  {
    assume "RegExp en c ''i'' = None"
    then have bad: "RegExp_i en c = None" by (simp add: RegExp_i_def)
    let ?val = "\<lparr>isAuthorized_v = False,
                  visitorName = Some (if hd ?ns = [] then ''unknown'' else hd ?ns)\<rparr>"
    have "lookup_names en ?wp ?ns (c # post) = (Inl SyntaxError, ?wp)"
      using bad by (simp add: findOne_def)
    with step have look: "lookup_names en w ?ns ?ns = (Inl SyntaxError, ?wp)" by simp
    show here: "validateVisitor en w r = (?val, ?wp)"
      using validateVisitor_caught [of r n ns en w SyntaxError ?wp] ok names look split by simp
    let ?en' = "en\<lparr>findOne_fails := \<lambda>nm. True\<rparr>"
    have "RegExp_i ?en' n = None \<or> findOne_fails ?en' n" by simp
    from lookup_names_raises [OF this, of w "n # ns" ns]
    obtain e w' where "lookup_names ?en' w (n # ns) (n # ns) = (Inl e, w')" by blast
    then have "validateVisitor ?en' w r
        = (\<lparr>isAuthorized_v = False, visitorName = Some (if n = [] then ''unknown'' else n)\<rparr>, w')"
      using validateVisitor_caught [of r n ns ?en' w e w'] ok names split by simp
    with here split
    show "fst (validateVisitor ?en' w r) = fst (validateVisitor en w r)" by simp
  }
  {
    fix rx :: "string \<Rightarrow> string \<Rightarrow> (string \<Rightarrow> bool) option"
    assume "\<forall>p. rx p ''i'' = RegExp en p ''i''"
    then show "validateVisitor (en\<lparr>RegExp := rx\<rparr>) w r = validateVisitor en w r"
      by (rule validateVisitor_only_flag_i)
  }
qed

lemma case_examples:
  "RegExp_fragment ''ALI HASSAN'' ''i'' = Some (search True (map (\<lambda>c. One (Lit c)) ''ALI HASSAN''))"
  "RegExp_fragment ''ALI HASSAN'' [] = Some (search False (map (\<lambda>c. One (Lit c)) ''ALI HASSAN''))"
  "search True (map (\<lambda>c. One (Lit c)) ''ALI HASSAN'') ''Ali Hassan''"
  "\<not> search False (map (\<lambda>c. One (Lit c)) ''ALI HASSAN'') ''Ali Hassan''"
  by (simp_all add: RegExp_fragment_def other_syntax_chars_def lower_def)

theorem candidate_is_regex_pattern_witness:
  "set ''.'' \<inter> set (name ali) = {} \<and> \<not> includes_js (name ali) ''.'' \<and>
   RegExp env0 ''.'' ''i'' = Some (search True [One AnyChar]) \<and>
   fst (validateVisitor env0 world0 (answer True ''Authenticated'' [''.'']))
     = \<lparr>isAuthorized_v = True, visitorName = Some ''Ali Hassan''\<rparr> \<and>
   \<not> includes_js (name ali) ''ALI HASSAN'' \<and>
   RegExp env0 ''ALI HASSAN'' [] = Some (search False (map (\<lambda>c. One (Lit c)) ''ALI HASSAN'')) \<and>
   \<not> search False (map (\<lambda>c. One (Lit c)) ''ALI HASSAN'') (name ali) \<and>
   RegExp env0 ''ALI HASSAN'' ''i'' = Some (search True (map (\<lambda>c. One (Lit c)) ''ALI HASSAN'')) \<and>
   fst (validateVisitor env0 world0 (answer True ''Authenticated'' [''ALI HASSAN'']))
     = \<lparr>isAuthorized_v = True, visitorName = Some ''Ali Hassan''\<rparr> \<and>
   RegExp env0 ''('' ''i'' = None \<and>
   validateVisitor env0 world0 (answer True ''Authenticated'' [''bo'', ''('', ''ali''])
     = (\<lparr>isAuthorized_v = False, visitorName = Some ''bo''\<rparr>, add_calls [FindOne ''bo''] world0) \<and>
   fst (validateVisitor store_down world0 (answer True ''Authenticated'' [''bo'', ''('', ''ali'']))
     = \<lparr>isAuthorized_v = False, visitorName = Some ''bo''\<rparr> \<and>
   validateVisitor (env0\<lparr>RegExp := \<lambda>p flags. if flags = ''i'' then RegExp_fragment p ''i'' else None\<rparr>)
       world0 (answer True ''Authenticated'' [''bo'', ''('', ''ali''])
     = validateVisitor env0 world0 (answer True ''Authenticated'' [''bo'', ''('', ''ali''])"
proof -
  let ?dot = "search True [One AnyChar]"
  let ?cap = "search True (map (\<lambda>c. One (Lit c)) ''ALI HASSAN'')"
  let ?r1 = "answer True ''Authenticated'' [''.'']"
  let ?r2 = "answer True ''Authenticated'' [''bo'', ''('', ''ali'']"
  let ?r3 = "answer True ''Authenticated'' [''ALI HASSAN'']"
  have lit: "set ''.'' \<inter> set (name ali) = {}" "\<not> includes_js (name ali) ''.''"
    "\<not> includes_js (name ali) ''ALI HASSAN''"
    by (simp_all add: ali_def)
  have ok1: "success ?r1" "authenticated ?r1" and names1: "recognized_names ?r1 = Some ([] @ ''.'' # [])"
    by (simp_all add: answer_def)
  have ok3: "success ?r3" "authenticated ?r3"
    and names3: "recognized_names ?r3 = Some ([] @ ''ALI HASSAN'' # [])"
    by (simp_all add: answer_def)
  have pre1: "\<forall>p\<in>set []. \<exists>m. RegExp_i env0 p = Some m \<and> \<not> findOne_fails env0 p \<and>
      (\<forall>v\<in>set (visitors world0). \<not> (m (name v) \<and> isAuthorized v))"
    by simp
  have dot: "RegExp env0 ''.'' ''i'' = Some ?dot" by (simp add: env0_def engine_examples)
  have cap: "RegExp env0 ''ALI HASSAN'' ''i'' = Some ?cap"
    "RegExp env0 ''ALI HASSAN'' [] = Some (search False (map (\<lambda>c. One (Lit c)) ''ALI HASSAN''))"
    "\<not> search False (map (\<lambda>c. One (Lit c)) ''ALI HASSAN'') (name ali)"
    using case_examples by (simp_all add: env0_def ali_def)
  have hit1: "RegExp env0 ''.'' ''i'' = Some ?dot \<and> \<not> findOne_fails env0 ''.'' \<and> \<not> save_fails env0 \<and>
      1 < length (visitors world0) \<and> ?dot (name (visitors world0 ! 1)) \<and>
      isAuthorized (visitors world0 ! 1) \<and>
      (\<forall>j<1. \<not> (?dot (name (visitors world0 ! j)) \<and> isAuthorized (visitors world0 ! j)))"
    using search_examples dot by (simp add: env0_def world0_visitors bob_def ali_def)
  have 1: "fst (validateVisitor env0 world0 ?r1)
      = \<lparr>isAuthorized_v = True, visitorName = Some ''Ali Hassan''\<rparr>"
    using candidate_is_regex_pattern [OF ok1 names1 pre1, THEN conjunct1, rule_format, OF hit1]
    by (simp add: world0_visitors ali_def)
  have hit3: "RegExp env0 ''ALI HASSAN'' ''i'' = Some ?cap \<and> \<not> findOne_fails env0 ''ALI HASSAN'' \<and>
      \<not> save_fails env0 \<and>
      1 < length (visitors world0) \<and> ?cap (name (visitors world0 ! 1)) \<and>
      isAuthorized (visitors world0 ! 1) \<and>
      (\<forall>j<1. \<not> (?cap (name (visitors world0 ! j)) \<and> isAuthorized (visitors world0 ! j)))"
    using case_examples(3) cap(1) by (simp add: env0_def world0_visitors bob_def ali_def)
  have 3: "fst (validateVisitor env0 world0 ?r3)
      = \<lparr>isAuthorized_v = True, visitorName = Some ''Ali Hassan''\<rparr>"
    using candidate_is_regex_pattern [OF ok3 names3 pre1, THEN conjunct1, rule_format, OF hit3]
    by (simp add: world0_visitors ali_def)
  have ok2: "success ?r2" "authenticated ?r2"
    and names2: "recognized_names ?r2 = Some ([''bo''] @ ''('' # [''ali''])"
    by (simp_all add: answer_def)
  have pre2: "\<forall>p\<in>set [''bo'']. \<exists>m. RegExp_i env0 p = Some m \<and> \<not> findOne_fails env0 p \<and>
      (\<forall>v\<in>set (visitors world0). \<not> (m (name v) \<and> isAuthorized v))"
    using search_examples
    by (simp add: env0_def RegExp_i_def engine_examples world0_visitors bob_def ali_def sammad_def)
  have bad: "RegExp env0 ''('' ''i'' = None" by (simp add: env0_def engine_examples)
  have down: "env0\<lparr>findOne_fails := \<lambda>nm. True\<rparr> = store_down" by (simp add: store_down_def)
  note t = candidate_is_regex_pattern [OF ok2 names2 pre2, THEN conjunct2, THEN conjunct1,
    rule_format, OF bad]
  have f0: "\<forall>rx. (\<forall>p. rx p ''i'' = RegExp env0 p ''i'') \<longrightarrow>
      validateVisitor (env0\<lparr>RegExp := rx\<rparr>) world0 ?r2 = validateVisitor env0 world0 ?r2"
    by (rule candidate_is_regex_pattern [OF ok2 names2 pre2, THEN conjunct2, THEN conjunct2])
  have f: "validateVisitor
        (env0\<lparr>RegExp := \<lambda>p flags. if flags = ''i'' then RegExp_fragment p ''i'' else None\<rparr>)
        world0 ?r2
      = validateVisitor env0 world0 ?r2"
    by (rule f0 [rule_format]) (simp add: env0_def)
  show ?thesis
    using lit dot 1 cap 3 bad t f by (simp add: down)
qed

text \<open>
  C9 as it was worded, with the first candidate as the name in every case, fails when the
  first candidate is the empty string. No visitor of the collection is authorized; the
  candidates are \<open>''''\<close>, which matches every name and finds nobody, and \<open>(\<close>, which is
  not a pattern: the name of the answer is \<open>unknown\<close>, not the first candidate.
\<close>

theorem invalid_pattern_after_empty_candidate:
  "success (answer True ''Authenticated'' [[], ''('']) \<and>
   authenticated (answer True ''Authenticated'' [[], ''('']) \<and>
   recognized_names (answer True ''Authenticated'' [[], ''('']) = Some [[], ''(''] \<and>
   RegExp env0 ''('' ''i'' = None \<and>
   fst (validateVisitor env0 world_bob (answer True ''Authenticated'' [[], ''('']))
     = \<lparr>isAuthorized_v = False, visitorName = Some ''unknown''\<rparr> \<and>
   ''unknown'' \<noteq> hd [[], ''('']"
proof -
  have pat: "RegExp_i env0 ''('' = None" "RegExp_i env0 [] = Some (search True [])"
    using engine_examples by (simp_all add: RegExp_i_def env0_def)
  have raw: "RegExp env0 ''('' ''i'' = None" by (simp add: env0_def engine_examples)
  have up: "\<not> findOne_fails env0 []" by (simp add: env0_def)
  have vs: "visitors world_bob = [bob]" by (simp add: world_bob_def world0_def)
  have "lookup_names env0 world_bob [[], ''(''] [[], ''('']
      = (Inl SyntaxError, record_call (FindOne []) world_bob)"
    using pat up by (simp add: findOne_def vs bob_def record_call_def)
  then show ?thesis
    using raw by (simp add: validateVisitor_def answer_def or_default_def)
qed

subsection \<open>Timeouts\<close>

text \<open>
  The request to the recognition API carries \<open>timeout: 30000\<close>, so it settles whatever
  the server does. The request for the image carries no timeout. A fetch that fails is
  caught and gives a \<open>null\<close> image; a fetch that is never answered never settles.
\<close>

lemma recognition_request_settles: "axios_request 30000 reply \<noteq> None"
  by (cases reply) simp_all

lemma processedImage_fetch_fails:
  assumes "\<not> truthy_str (image_ev ev)" and "imageUrl ev = Some url" and "url \<noteq> []"
    and "image_host en url = Refused"
  shows "processedImage en ev = (Returned None, [HttpGet url])"
  using assms by (simp add: processedImage_def)

lemma processedImage_pending:
  assumes "\<not> truthy_str (image_ev ev)" and "imageUrl ev = Some url" and "url \<noteq> []"
    and "image_host en url = NoReply"
  shows "processedImage en ev = (Pending, [HttpGet url])"
  using assms by (simp add: processedImage_def axios_default_timeout_def)

text \<open>
  C8 (every external call carries a bounded timeout, and a fetch that times out gives a
  \<open>null\<close> image and a result) fails for the image fetch. The event carries only the
  URL of an image whose host accepts the request and never answers. The request has the
  default timeout of axios, which is none: the fetch stays pending and so does the
  callback, behind the claim it has set. No result is written and nothing is reset.
\<close>

theorem image_fetch_without_timeout_hangs:
  "axios_default_timeout = 0 \<and>
   image_host env0 ''http://cam/2.jpg'' = NoReply \<and>
   processedImage env0 (url_event ''http://cam/2.jpg'') = (Pending, [HttpGet ''http://cam/2.jpg'']) \<and>
   fst (on_child_added env0 world0 ''e1'' (url_event ''http://cam/2.jpg'')) = Pending \<and>
   calls (snd (on_child_added env0 world0 ''e1'' (url_event ''http://cam/2.jpg'')))
     = [Update ''e1'' True, HttpGet ''http://cam/2.jpg''] \<and>
   recognition_results (snd (on_child_added env0 world0 ''e1'' (url_event ''http://cam/2.jpg'')))
     ''e1'' = None \<and>
   map_option processed
     (doorbell_events (snd (on_child_added env0 world0 ''e1'' (url_event ''http://cam/2.jpg'')))
        ''e1'') = Some (JBool True)"
proof -
  let ?ev = "url_event ''http://cam/2.jpg''"
  have host: "image_host env0 ''http://cam/2.jpg'' = NoReply" by (simp add: env0_def)
  have img: "processedImage env0 ?ev = (Pending, [HttpGet ''http://cam/2.jpg''])"
    using host by (intro processedImage_pending) (simp_all add: url_event_def blank_event_def)
  have ts: "actualTimestamp env0 ?ev = Inr (JStr ''2023-11-14T22:13:20.000Z'')"
    by (simp add: actualTimestamp_def url_event_def blank_event_def env0_def max_time_def)
  have run: "\<And>w. processDoorbellEvent env0 w ''e1'' ?ev
      = (Pending, add_calls [HttpGet ''http://cam/2.jpg''] w)"
    using img ts by (simp add: processDoorbellEvent_def)
  have claim: "update_processed env0 world0 ''e1'' True
      = (Returned (),
         (record_call (Update ''e1'' True) world0)
           \<lparr>doorbell_events := (doorbell_events (record_call (Update ''e1'' True) world0))
              (''e1'' \<mapsto> blank_event\<lparr>processed := JBool True\<rparr>)\<rparr>)"
    by (simp add: update_processed_def Let_def env0_def world0_def record_call_def)
  have flag: "processed ?ev \<noteq> JBool True" by (simp add: url_event_def blank_event_def)
  have all: "on_child_added env0 world0 ''e1'' ?ev
      = (Pending, add_calls [HttpGet ''http://cam/2.jpg'']
           ((record_call (Update ''e1'' True) world0)
              \<lparr>doorbell_events := (doorbell_events (record_call (Update ''e1'' True) world0))
                 (''e1'' \<mapsto> blank_event\<lparr>processed := JBool True\<rparr>)\<rparr>))"
    using flag by (simp add: on_child_added_def claim_and_process_def claim run)
  have w: "calls world0 = []" "recognition_results world0 ''e1'' = None"
    by (simp_all add: world0_def)
  show ?thesis
    using host img w
    by (simp add: all axios_default_timeout_def record_call_def)
qed

end
